theory Spec2Isabelle
  imports Complex_Main
begin

section \<open>Core types (TradingSystemCore.h)\<close>

datatype OrderType = BUY | SELL

datatype OrderStatus = PENDING | ACCEPTED | PARTIALLY_FILLED | FILLED | CANCELLED | REJECTED

datatype OrderTimeInForce = GTC | IOC | FOK

text \<open>
  The dynamic class of an order object: \<open>LimitOrder\<close> and \<open>MarketOrder\<close> are the two
  concrete subclasses of the abstract class \<open>Order\<close>; virtual calls dispatch on it.
\<close>

datatype OrderClass = LimitOrder | MarketOrder

text \<open>
  \<open>Price\<close> is a C++ \<open>double\<close>. A double is either a number or not a number (NaN);
  \<open>Fin x\<close> is the double whose value is the rational \<open>x\<close>. The comparisons \<open><\<close>, \<open>>\<close>,
  \<open>\<le>\<close> and \<open>\<ge>\<close> of doubles are false as soon as one operand is NaN, and a difference or an
  absolute value with a NaN operand is NaN. The two infinities are not represented: every
  test that the program makes on a price it is given treats \<open>+\<infinity>\<close> as it treats a number
  above \<open>MAX_ORDER_PRICE\<close> and \<open>-\<infinity>\<close> as it treats a negative number, and neither is ever
  stored in an order. The only arithmetic the program performs on prices is the
  subtraction inside the comparators, which is exact on doubles for the concrete prices
  used below (dyadic rationals that are close to each other).
  \<open>Quantity\<close> is a C++ \<open>int\<close>; it is modelled by \<open>int\<close>. Every order that
  \<open>isValid\<close> admits has \<open>0 < quantity \<le> 1000000\<close>, far from the 32-bit range.
  \<open>Timestamp\<close> is a point of the system clock; only \<open><\<close> is used on it.
\<close>

datatype double = NaN | Fin rat

instantiation double :: "{ord, minus, abs}"
begin

fun less_double :: "double \<Rightarrow> double \<Rightarrow> bool" where
  "less_double (Fin x) (Fin y) = (x < y)"
| "less_double _ _ = False"

fun less_eq_double :: "double \<Rightarrow> double \<Rightarrow> bool" where
  "less_eq_double (Fin x) (Fin y) = (x \<le> y)"
| "less_eq_double _ _ = False"

fun minus_double :: "double \<Rightarrow> double \<Rightarrow> double" where
  "minus_double (Fin x) (Fin y) = Fin (x - y)"
| "minus_double _ _ = NaN"

fun abs_double :: "double \<Rightarrow> double" where
  "abs_double (Fin x) = Fin \<bar>x\<bar>"
| "abs_double NaN = NaN"

instance ..

end

type_synonym UserId = string
type_synonym OrderId = string
type_synonym TradeId = string
type_synonym Symbol = string
type_synonym Quantity = int
type_synonym Price = double
type_synonym Timestamp = nat

definition MAX_ORDER_QUANTITY :: int where
  "MAX_ORDER_QUANTITY = 1000000"

definition MIN_ORDER_PRICE :: double where
  "MIN_ORDER_PRICE = Fin (1 / 100)"

definition MAX_ORDER_PRICE :: double where
  "MAX_ORDER_PRICE = Fin 1000000"

section \<open>Order (Order.h, Order.cpp)\<close>

record Order =
  orderClass :: OrderClass
  orderId :: OrderId
  userId :: UserId
  orderType :: OrderType
  symbol :: Symbol
  quantity :: Quantity
  price :: Price
  timestamp :: Timestamp
  status :: OrderStatus
  timeInForce :: OrderTimeInForce
  filledQuantity :: Quantity

text \<open>
  The constructors. The base constructor reads the clock for \<open>timestamp_\<close>; the value
  read is the parameter \<open>now\<close>. \<open>MarketOrder\<close> passes the price \<open>0.0\<close>.
\<close>

definition newLimitOrder ::
  "OrderId \<Rightarrow> UserId \<Rightarrow> OrderType \<Rightarrow> Symbol \<Rightarrow> Quantity \<Rightarrow> Price \<Rightarrow> Timestamp \<Rightarrow> Order" where
  "newLimitOrder oid uid ty smb q p now =
     \<lparr>orderClass = LimitOrder, orderId = oid, userId = uid, orderType = ty, symbol = smb,
      quantity = q, price = p, timestamp = now, status = PENDING, timeInForce = GTC,
      filledQuantity = 0\<rparr>"

definition newMarketOrder ::
  "OrderId \<Rightarrow> UserId \<Rightarrow> OrderType \<Rightarrow> Symbol \<Rightarrow> Quantity \<Rightarrow> Timestamp \<Rightarrow> Order" where
  "newMarketOrder oid uid ty smb q now =
     \<lparr>orderClass = MarketOrder, orderId = oid, userId = uid, orderType = ty, symbol = smb,
      quantity = q, price = Fin 0, timestamp = now, status = PENDING, timeInForce = GTC,
      filledQuantity = 0\<rparr>"

definition getRemainingQuantity :: "Order \<Rightarrow> Quantity" where
  "getRemainingQuantity ord = quantity ord - filledQuantity ord"

definition canModify :: "Order \<Rightarrow> bool" where
  "canModify ord = (status ord = PENDING \<or> status ord = ACCEPTED)"

definition canCancel :: "Order \<Rightarrow> bool" where
  "canCancel ord =
     (status ord = PENDING \<or> status ord = ACCEPTED \<or> status ord = PARTIALLY_FILLED)"

text \<open>The setters return their boolean result together with the object after the call.\<close>

definition setQuantity :: "Order \<Rightarrow> Quantity \<Rightarrow> bool \<times> Order" where
  "setQuantity ord newQuantity =
     (if newQuantity \<le> 0 \<or> newQuantity > MAX_ORDER_QUANTITY then (False, ord)
      else if \<not> canModify ord then (False, ord)
      else (True, ord\<lparr>quantity := newQuantity\<rparr>))"

definition setPrice :: "Order \<Rightarrow> Price \<Rightarrow> bool \<times> Order" where
  "setPrice ord newPrice =
     (case orderClass ord of
        MarketOrder \<Rightarrow> (False, ord)
      | LimitOrder \<Rightarrow>
          (if newPrice < MIN_ORDER_PRICE \<or> newPrice > MAX_ORDER_PRICE then (False, ord)
           else if \<not> canModify ord then (False, ord)
           else (True, ord\<lparr>price := newPrice\<rparr>)))"

definition setStatus :: "Order \<Rightarrow> OrderStatus \<Rightarrow> bool \<times> Order" where
  "setStatus ord newStatus = (True, ord\<lparr>status := newStatus\<rparr>)"

definition fill :: "Order \<Rightarrow> Quantity \<Rightarrow> Order" where
  "fill ord fillQuantity =
     (if fillQuantity \<le> getRemainingQuantity ord then
        (let ord1 = ord\<lparr>filledQuantity := filledQuantity ord + fillQuantity\<rparr>
         in if filledQuantity ord1 = quantity ord1 then ord1\<lparr>status := FILLED\<rparr>
            else if filledQuantity ord1 > 0 then ord1\<lparr>status := PARTIALLY_FILLED\<rparr>
            else ord1)
      else ord)"

definition isValid :: "Order \<Rightarrow> bool" where
  "isValid ord =
     (case orderClass ord of
        LimitOrder \<Rightarrow>
          orderId ord \<noteq> [] \<and> userId ord \<noteq> [] \<and> symbol ord \<noteq> [] \<and>
          quantity ord > 0 \<and> quantity ord \<le> MAX_ORDER_QUANTITY \<and>
          price ord \<ge> MIN_ORDER_PRICE \<and> price ord \<le> MAX_ORDER_PRICE
      | MarketOrder \<Rightarrow>
          orderId ord \<noteq> [] \<and> userId ord \<noteq> [] \<and> symbol ord \<noteq> [] \<and>
          quantity ord > 0 \<and> quantity ord \<le> MAX_ORDER_QUANTITY \<and>
          price ord \<ge> Fin 0)"

text \<open>
  \<open>clone\<close> runs the implicit copy constructor of the dynamic class: the new object has
  the value of every field of the original, the timestamp included.
\<close>

definition clone :: "Order \<Rightarrow> Order" where
  "clone ord = ord"

subsection \<open>Comparators\<close>

definition BuyOrderComparator :: "Order \<Rightarrow> Order \<Rightarrow> bool" where
  "BuyOrderComparator lhs rhs =
     (if \<bar>price lhs - price rhs\<bar> > Fin (1 / 10 ^ 9) then price lhs > price rhs
      else timestamp lhs < timestamp rhs)"

definition SellOrderComparator :: "Order \<Rightarrow> Order \<Rightarrow> bool" where
  "SellOrderComparator lhs rhs =
     (if \<bar>price lhs - price rhs\<bar> > Fin (1 / 10 ^ 9) then price lhs < price rhs
      else timestamp lhs < timestamp rhs)"

definition terminal :: "OrderStatus \<Rightarrow> bool" where
  "terminal st = (st = FILLED \<or> st = CANCELLED \<or> st = REJECTED)"

section \<open>Trade (Trade.h, Trade.cpp)\<close>

record Trade =
  tradeId :: TradeId
  tradeType :: OrderType
  buyerOrderId :: OrderId
  sellerOrderId :: OrderId
  tradeSymbol :: Symbol
  tradeQuantity :: Quantity
  tradePrice :: Price
  tradeTimestamp :: Timestamp

section \<open>Objects and environment\<close>

text \<open>
  Orders are shared objects (\<open>std::shared_ptr<Order>\<close>): the two queues of a book, its
  id-map and the engine's \<open>allOrders_\<close> hold handles to the same object, and \<open>fill\<close>
  and \<open>setStatus\<close> mutate it in place. The model keeps an explicit store from addresses
  to order objects; a handle is an address. \<open>next_ref\<close> is the next unused address.
  \<open>generateUUID\<close> (random) and \<open>getCurrentTimestamp\<close> (wall clock) are inputs of the
  program: \<open>uuid_src\<close> and \<open>clock_src\<close> give the value of the \<open>n\<close>-th call, and the
  counters say how many calls have been made. \<open>insert_src\<close> is the third input: the
  \<open>n\<close>-th insertion into a \<open>std::multiset\<close> uses \<open>insert_src n\<close> to choose among the
  places of the in-order sequence that the descent of the tree can reach (see
  \<open>multiset_insert\<close> below).
\<close>

record World =
  heap :: "nat \<Rightarrow> Order"
  next_ref :: nat
  uuid_src :: "nat \<Rightarrow> string"
  uuid_calls :: nat
  clock_src :: "nat \<Rightarrow> Timestamp"
  clock_calls :: nat
  insert_src :: "nat \<Rightarrow> nat"
  insert_calls :: nat

definition generateUUID :: "World \<Rightarrow> string \<times> World" where
  "generateUUID w = (uuid_src w (uuid_calls w), w\<lparr>uuid_calls := uuid_calls w + 1\<rparr>)"

definition getCurrentTimestamp :: "World \<Rightarrow> Timestamp \<times> World" where
  "getCurrentTimestamp w = (clock_src w (clock_calls w), w\<lparr>clock_calls := clock_calls w + 1\<rparr>)"

definition insertChoice :: "World \<Rightarrow> nat \<times> World" where
  "insertChoice w = (insert_src w (insert_calls w), w\<lparr>insert_calls := insert_calls w + 1\<rparr>)"

section \<open>OrderBook (OrderBook.h, OrderBook.cpp)\<close>

text \<open>
  The two \<open>std::multiset\<close>s are modelled by their in-order sequence (\<open>begin()\<close> is the
  head of the list), \<open>orderLookup_\<close> by a finite map.
\<close>

record OrderBook =
  bookSymbol :: Symbol
  buyOrders :: "nat list"
  sellOrders :: "nat list"
  orderLookup :: "OrderId \<rightharpoonup> nat"

definition newOrderBook :: "Symbol \<Rightarrow> OrderBook" where
  "newOrderBook smb = \<lparr>bookSymbol = smb, buyOrders = [], sellOrders = [], orderLookup = Map.empty\<rparr>"

text \<open>
  \<open>std::multiset::insert\<close>. The container is a binary search tree. \<open>insert\<close> descends
  from the root, going left at a node when the comparator orders the new element before
  the node's element and right otherwise, and makes the new element a leaf; rebalancing
  and \<open>erase\<close> keep the in-order sequence of the other elements. In the in-order sequence
  the element right after the new one is therefore a node at which the descent went
  left, and the element right before it a node at which the descent went right: place
  \<open>k\<close> of the sequence can be reached only if the comparator does not order the new
  element before the element at \<open>k - 1\<close> and orders it before the element at \<open>k\<close>
  (\<open>insertPlace\<close>). When the comparator is a strict weak order on the elements there is
  exactly one such place, the upper bound. The comparators of this program are not
  transitive on prices that are close to each other, and then there can be several,
  among which the shape of the tree decides; \<open>choice\<close> selects one of them. The first
  element that the comparator orders after the new one is always such a place, so the
  list of places is never empty.
\<close>

definition insertPlace :: "(Order \<Rightarrow> Order \<Rightarrow> bool) \<Rightarrow> (nat \<Rightarrow> Order) \<Rightarrow> nat \<Rightarrow> nat list \<Rightarrow> nat \<Rightarrow> bool" where
  "insertPlace cmp h r q k =
     ((k = 0 \<or> \<not> cmp (h r) (h (q ! (k - 1)))) \<and> (k = length q \<or> cmp (h r) (h (q ! k))))"

definition insertPlaces :: "(Order \<Rightarrow> Order \<Rightarrow> bool) \<Rightarrow> (nat \<Rightarrow> Order) \<Rightarrow> nat \<Rightarrow> nat list \<Rightarrow> nat list" where
  "insertPlaces cmp h r q = filter (insertPlace cmp h r q) [0..<Suc (length q)]"

definition multiset_insert ::
  "(Order \<Rightarrow> Order \<Rightarrow> bool) \<Rightarrow> (nat \<Rightarrow> Order) \<Rightarrow> nat \<Rightarrow> nat \<Rightarrow> nat list \<Rightarrow> nat list" where
  "multiset_insert cmp h choice r q =
     (let places = insertPlaces cmp h r q;
          k = places ! (choice mod length places)
      in take k q @ r # drop k q)"

text \<open>
  The scan of \<open>cancelOrder\<close> and \<open>modifyOrder\<close>: erase the first element of the queue
  whose order id is the one looked for; the result says whether one was found.
\<close>

fun eraseById :: "(nat \<Rightarrow> Order) \<Rightarrow> OrderId \<Rightarrow> nat list \<Rightarrow> bool \<times> nat list" where
  "eraseById h oid [] = (False, [])"
| "eraseById h oid (r # rs) =
     (if orderId (h r) = oid then (True, rs)
      else (case eraseById h oid rs of (removed, rs') \<Rightarrow> (removed, r # rs')))"

text \<open>The argument of \<open>addOrder\<close> is a handle that may be null (\<open>None\<close>).\<close>

definition addOrder :: "World \<Rightarrow> OrderBook \<Rightarrow> nat option \<Rightarrow> bool \<times> World \<times> OrderBook" where
  "addOrder w b p =
     (case p of
        None \<Rightarrow> (False, w, b)
      | Some r \<Rightarrow>
          if symbol (heap w r) \<noteq> bookSymbol b \<or> \<not> isValid (heap w r) then (False, w, b)
          else if orderLookup b (orderId (heap w r)) \<noteq> None then (False, w, b)
          else
            let w1 = w\<lparr>heap := (heap w)(r := snd (setStatus (heap w r) ACCEPTED))\<rparr>
            in (case insertChoice w1 of
                  (choice, w2) \<Rightarrow>
                    let b1 = (if orderType (heap w2 r) = BUY
                              then b\<lparr>buyOrders := multiset_insert BuyOrderComparator (heap w2) choice r (buyOrders b)\<rparr>
                              else b\<lparr>sellOrders := multiset_insert SellOrderComparator (heap w2) choice r (sellOrders b)\<rparr>);
                        b2 = b1\<lparr>orderLookup := (orderLookup b1)(orderId (heap w2 r) \<mapsto> r)\<rparr>
                    in (True, w2, b2)))"

text \<open>The side scan shared by \<open>cancelOrder\<close> and \<open>modifyOrder\<close>.\<close>

definition eraseFromSide :: "World \<Rightarrow> OrderBook \<Rightarrow> nat \<Rightarrow> OrderId \<Rightarrow> bool \<times> OrderBook" where
  "eraseFromSide w b r oid =
     (if orderType (heap w r) = BUY
      then (case eraseById (heap w) oid (buyOrders b) of
              (removed, q) \<Rightarrow> (removed, b\<lparr>buyOrders := q\<rparr>))
      else (case eraseById (heap w) oid (sellOrders b) of
              (removed, q) \<Rightarrow> (removed, b\<lparr>sellOrders := q\<rparr>)))"


text \<open>
  \<open>modifyOrder\<close>. The clone is a new object, at the address \<open>next_ref\<close>. On every failing
  path the \<open>unique_ptr\<close> holding the clone is destroyed on return, so the store is as
  before the call. The second lookup ("re-verify under lock") is kept as in the source.
\<close>

definition book_modifyOrder ::
  "World \<Rightarrow> OrderBook \<Rightarrow> OrderId \<Rightarrow> Quantity \<Rightarrow> Price \<Rightarrow> bool \<times> World \<times> OrderBook" where
  "book_modifyOrder w b oid newQuantity newPrice =
     (case orderLookup b oid of
        None \<Rightarrow> (False, w, b)
      | Some existingOrder \<Rightarrow>
          if \<not> canModify (heap w existingOrder) then (False, w, b)
          else
            (case setQuantity (clone (heap w existingOrder)) newQuantity of
               (ok1, m1) \<Rightarrow>
                 if \<not> ok1 then (False, w, b)
                 else
                   (case setPrice m1 newPrice of
                      (ok2, m2) \<Rightarrow>
                        if \<not> ok2 then (False, w, b)
                        else
                          (case orderLookup b oid of
                             None \<Rightarrow> (False, w, b)
                           | Some r \<Rightarrow>
                               if \<not> canModify (heap w r) then (False, w, b)
                               else
                                 (case eraseFromSide w b r oid of
                                    (removed, b1) \<Rightarrow>
                                      if \<not> removed then (False, w, b1)
                                      else
                                        let m = next_ref w;
                                            w1 = w\<lparr>heap := (heap w)(m := snd (setStatus m2 ACCEPTED)),
                                                    next_ref := m + 1\<rparr>
                                        in (case insertChoice w1 of
                                              (choice, w2) \<Rightarrow>
                                                let b2 = (if orderType (heap w2 m) = BUY
                                                          then b1\<lparr>buyOrders := multiset_insert BuyOrderComparator (heap w2) choice m (buyOrders b1)\<rparr>
                                                          else b1\<lparr>sellOrders := multiset_insert SellOrderComparator (heap w2) choice m (sellOrders b1)\<rparr>);
                                                    b3 = b2\<lparr>orderLookup := (orderLookup b2)(oid \<mapsto> m)\<rparr>
                                                in (True, w2, b3)))))))"

definition getOrder :: "OrderBook \<Rightarrow> OrderId \<Rightarrow> nat option" where
  "getOrder b oid = orderLookup b oid"

definition getBestBid :: "World \<Rightarrow> OrderBook \<Rightarrow> Price" where
  "getBestBid w b = (case buyOrders b of [] \<Rightarrow> Fin 0 | r # _ \<Rightarrow> price (heap w r))"

definition getBestAsk :: "World \<Rightarrow> OrderBook \<Rightarrow> Price" where
  "getBestAsk w b = (case sellOrders b of [] \<Rightarrow> Fin 0 | r # _ \<Rightarrow> price (heap w r))"

subsection \<open>The matching loop\<close>

text \<open>
  One pass of the body of the \<open>while\<close> loop of \<open>matchOrders\<close>, after the loop condition
  and the \<open>break\<close> test: it is run on the two best orders \<open>bestBuy\<close> and \<open>bestSell\<close>.
\<close>

definition matchBody :: "World \<Rightarrow> OrderBook \<Rightarrow> nat \<Rightarrow> nat \<Rightarrow> Trade \<times> World \<times> OrderBook" where
  "matchBody w b bestBuy bestSell =
     (let tq = min (getRemainingQuantity (heap w bestBuy)) (getRemainingQuantity (heap w bestSell));
          tp = price (heap w bestSell)
      in case generateUUID w of
           (tid, wa) \<Rightarrow>
             (case getCurrentTimestamp wa of
                (now, wb) \<Rightarrow>
                  let trade = \<lparr>tradeId = tid, tradeType = BUY,
                               buyerOrderId = orderId (heap wb bestBuy),
                               sellerOrderId = orderId (heap wb bestSell),
                               tradeSymbol = bookSymbol b, tradeQuantity = tq, tradePrice = tp,
                               tradeTimestamp = now\<rparr>;
                      w1 = wb\<lparr>heap := (heap wb)(bestBuy := fill (heap wb bestBuy) tq)\<rparr>;
                      w2 = w1\<lparr>heap := (heap w1)(bestSell := fill (heap w1 bestSell) tq)\<rparr>;
                      b1 = (if getRemainingQuantity (heap w2 bestBuy) = 0
                            then b\<lparr>buyOrders := tl (buyOrders b)\<rparr> else b);
                      b2 = (if getRemainingQuantity (heap w2 bestSell) = 0
                            then b1\<lparr>sellOrders := tl (sellOrders b1)\<rparr> else b1)
                  in (trade, w2, b2)))"

text \<open>
  Every pass removes at least one of the two best orders, except when the same object
  heads both queues with a negative remaining quantity; then the next pass removes it.
\<close>

definition matchMeasure :: "World \<Rightarrow> OrderBook \<Rightarrow> nat" where
  "matchMeasure w b =
     2 * (length (buyOrders b) + length (sellOrders b)) +
     (if buyOrders b \<noteq> [] \<and> sellOrders b \<noteq> [] \<and> hd (buyOrders b) = hd (sellOrders b) \<and>
         getRemainingQuantity (heap w (hd (buyOrders b))) < 0 then 1 else 0)"

lemma getRemainingQuantity_fill:
  "getRemainingQuantity (fill ord n) =
     (if n \<le> getRemainingQuantity ord then getRemainingQuantity ord - n
      else getRemainingQuantity ord)"
  by (simp add: fill_def getRemainingQuantity_def Let_def)

lemma matchBody_measure_cons:
  assumes "buyOrders b = x # xs" "sellOrders b = y # ys"
    and "matchBody w b x y = (t, w', b')"
  shows "matchMeasure w' b' < matchMeasure w b"
proof (cases "x = y")
  case True
  with assms show ?thesis
    by (auto simp: matchBody_def matchMeasure_def Let_def generateUUID_def
        getCurrentTimestamp_def getRemainingQuantity_fill split: if_splits)
next
  case False
  with assms show ?thesis
    by (auto simp: matchBody_def matchMeasure_def Let_def generateUUID_def
        getCurrentTimestamp_def getRemainingQuantity_fill min_def split: if_splits)
qed

lemma matchBody_measure:
  "buyOrders b \<noteq> [] \<Longrightarrow> sellOrders b \<noteq> [] \<Longrightarrow>
   matchBody w b (hd (buyOrders b)) (hd (sellOrders b)) = (t, w', b') \<Longrightarrow>
   matchMeasure w' b' < matchMeasure w b"
  using matchBody_measure_cons [of b "hd (buyOrders b)" "tl (buyOrders b)"
      "hd (sellOrders b)" "tl (sellOrders b)" w t w' b']
  by simp

text \<open>
  The \<open>while\<close> loop of \<open>matchOrders\<close>; \<open>trades\<close> is the local vector that
  \<open>push_back\<close> extends.
\<close>

function matchLoop :: "World \<Rightarrow> OrderBook \<Rightarrow> Trade list \<Rightarrow> Trade list \<times> World \<times> OrderBook" where
  "matchLoop w b trades =
     (if buyOrders b \<noteq> [] \<and> sellOrders b \<noteq> [] then
        (let bestBuy = hd (buyOrders b); bestSell = hd (sellOrders b) in
         if price (heap w bestBuy) < price (heap w bestSell) then (trades, w, b)
         else (case matchBody w b bestBuy bestSell of
                 (trade, w', b') \<Rightarrow> matchLoop w' b' (trades @ [trade])))
      else (trades, w, b))"
  by pat_completeness auto
termination
proof (relation "measure (\<lambda>(w, b, trades). matchMeasure w b)")
  show "wf (measure (\<lambda>(w, b, trades). matchMeasure w b))" by simp
next
  fix w b trades bestBuy bestSell trade q w' b'
  assume ne: "buyOrders b \<noteq> [] \<and> sellOrders b \<noteq> []"
    and bb: "bestBuy = hd (buyOrders b)" and bs: "bestSell = hd (sellOrders b)"
    and mb: "(trade, q) = matchBody w b bestBuy bestSell" and q: "(w', b') = q"
  from mb q bb bs
  have "matchBody w b (hd (buyOrders b)) (hd (sellOrders b)) = (trade, w', b')"
    by simp
  with ne have "matchMeasure w' b' < matchMeasure w b"
    using matchBody_measure by blast
  then show "((w', b', trades @ [trade]), w, b, trades)
               \<in> measure (\<lambda>(w, b, trades). matchMeasure w b)"
    by simp
qed

declare matchLoop.simps [simp del]

definition matchOrders :: "World \<Rightarrow> OrderBook \<Rightarrow> Trade list \<times> World \<times> OrderBook" where
  "matchOrders w b = matchLoop w b []"

section \<open>TradingEngine (TradingEngine.h, TradingEngine.cpp)\<close>

record User =
  user_userId :: UserId
  userName :: string
  phoneNumber :: string
  emailId :: string

definition user_isValid :: "User \<Rightarrow> bool" where
  "user_isValid u =
     (user_userId u \<noteq> [] \<and> userName u \<noteq> [] \<and> phoneNumber u \<noteq> [] \<and> emailId u \<noteq> [])"

text \<open>
  A callback of the \<open>TradeObserver\<close> interface. \<open>onOrderStatusChanged\<close> receives a handle;
  the event records the handle and the value of the order object when the callback runs.
\<close>

datatype Event = OnTradeExecuted Trade | OnOrderStatusChanged nat Order

text \<open>
  \<open>orderBooks_\<close> is an \<open>unordered_map\<close> of symbols to books; the list stands for it, in
  its iteration order (a new book is added only under a symbol that has none).
  \<open>observers_\<close> is a vector of observer pointers (\<open>None\<close> is the null pointer; an observer
  is named by a number). \<open>callbacks\<close> is the trace of all callbacks made so far, each with
  the observer that received it.
\<close>

record TradingEngine =
  world :: World
  orderBooks :: "(Symbol \<times> OrderBook) list"
  users :: "UserId \<rightharpoonup> User"
  observers :: "nat option list"
  allOrders :: "OrderId \<rightharpoonup> nat"
  callbacks :: "(nat \<times> Event) list"

definition registerUser :: "TradingEngine \<Rightarrow> User option \<Rightarrow> bool \<times> TradingEngine" where
  "registerUser e p =
     (case p of
        None \<Rightarrow> (False, e)
      | Some u \<Rightarrow>
          if \<not> user_isValid u then (False, e)
          else (case users e (user_userId u) of
                  Some _ \<Rightarrow> (False, e)
                | None \<Rightarrow> (True, e\<lparr>users := (users e)(user_userId u \<mapsto> u)\<rparr>)))"

definition getUser :: "TradingEngine \<Rightarrow> UserId \<Rightarrow> User option" where
  "getUser e uid = users e uid"

definition registerObserver :: "TradingEngine \<Rightarrow> nat option \<Rightarrow> TradingEngine" where
  "registerObserver e ob = e\<lparr>observers := observers e @ [ob]\<rparr>"

definition unregisterObserver :: "TradingEngine \<Rightarrow> nat option \<Rightarrow> TradingEngine" where
  "unregisterObserver e ob = e\<lparr>observers := filter (\<lambda>x. x \<noteq> ob) (observers e)\<rparr>"

text \<open>A notification calls every non-null observer, in the order of the vector.\<close>

definition deliver :: "nat option list \<Rightarrow> Event \<Rightarrow> (nat \<times> Event) list" where
  "deliver obs ev = concat (map (\<lambda>p. case p of None \<Rightarrow> [] | Some ob \<Rightarrow> [(ob, ev)]) obs)"

definition notifyTradeExecuted :: "TradingEngine \<Rightarrow> Trade \<Rightarrow> TradingEngine" where
  "notifyTradeExecuted e trade =
     e\<lparr>callbacks := callbacks e @ deliver (observers e) (OnTradeExecuted trade)\<rparr>"

definition notifyOrderStatusChanged :: "TradingEngine \<Rightarrow> nat \<Rightarrow> TradingEngine" where
  "notifyOrderStatusChanged e r =
     e\<lparr>callbacks := callbacks e @ deliver (observers e) (OnOrderStatusChanged r (heap (world e) r))\<rparr>"

text \<open>
  \<open>getOrCreateOrderBook\<close> returns a pointer to the book of the symbol; the engine then
  calls the book's methods through it. In the model the book is read with \<open>bookOf\<close> and
  written back with \<open>putOrderBook\<close>.
\<close>

definition getOrCreateOrderBook :: "TradingEngine \<Rightarrow> Symbol \<Rightarrow> TradingEngine" where
  "getOrCreateOrderBook e smb =
     (case map_of (orderBooks e) smb of
        None \<Rightarrow> e\<lparr>orderBooks := orderBooks e @ [(smb, newOrderBook smb)]\<rparr>
      | Some _ \<Rightarrow> e)"

definition bookOf :: "TradingEngine \<Rightarrow> Symbol \<Rightarrow> OrderBook" where
  "bookOf e smb = (case map_of (orderBooks e) smb of None \<Rightarrow> newOrderBook smb | Some b \<Rightarrow> b)"

definition putOrderBook :: "TradingEngine \<Rightarrow> Symbol \<Rightarrow> OrderBook \<Rightarrow> TradingEngine" where
  "putOrderBook e smb b =
     e\<lparr>orderBooks := map (\<lambda>(s, x). if s = smb then (s, b) else (s, x)) (orderBooks e)\<rparr>"

text \<open>
  The step that \<open>placeOrder\<close> and \<open>modifyOrder\<close> both end with: run \<open>matchOrders\<close> on
  the book of the symbol, then notify the observers of every trade, in the order of the
  returned vector.
\<close>

definition matchAndPublish :: "TradingEngine \<Rightarrow> Symbol \<Rightarrow> TradingEngine" where
  "matchAndPublish e smb =
     (case matchOrders (world e) (bookOf e smb) of
        (trades, w, b) \<Rightarrow> foldl notifyTradeExecuted (putOrderBook (e\<lparr>world := w\<rparr>) smb b) trades)"

text \<open>
  The order object that \<open>placeOrder\<close> constructs: a \<open>LimitOrder\<close> for a positive price,
  a \<open>MarketOrder\<close> otherwise; \<open>now\<close> is the clock value its constructor reads.
\<close>

definition buildOrder ::
  "OrderId \<Rightarrow> UserId \<Rightarrow> OrderType \<Rightarrow> Symbol \<Rightarrow> Quantity \<Rightarrow> Price \<Rightarrow> Timestamp \<Rightarrow> Order" where
  "buildOrder oid uid ty smb qty prc now =
     (if prc > Fin 0 then newLimitOrder oid uid ty smb qty prc now
      else newMarketOrder oid uid ty smb qty now)"

definition placeOrder ::
  "TradingEngine \<Rightarrow> UserId \<Rightarrow> OrderType \<Rightarrow> Symbol \<Rightarrow> Quantity \<Rightarrow> Price \<Rightarrow> nat option \<times> TradingEngine" where
  "placeOrder e uid ty smb qty prc =
     (if getUser e uid = None then (None, e)
      else
        (case generateUUID (world e) of
           (oid, w1) \<Rightarrow>
             if prc < Fin 0 then (None, e\<lparr>world := w1\<rparr>)
             else
               (case getCurrentTimestamp w1 of
                  (now, w2) \<Rightarrow>
                    let ord = buildOrder oid uid ty smb qty prc now
                    in if \<not> isValid ord then (None, e\<lparr>world := w2\<rparr>)
                       else
                         let e1 = getOrCreateOrderBook (e\<lparr>world := w2\<rparr>) smb;
                             r = next_ref w2;
                             w3 = w2\<lparr>heap := (heap w2)(r := ord), next_ref := r + 1\<rparr>;
                             e2 = e1\<lparr>world := w3, allOrders := (allOrders e1)(orderId ord \<mapsto> r)\<rparr>
                         in (case addOrder w3 (bookOf e2 smb) (Some r) of
                               (ok, w4, b1) \<Rightarrow>
                                 let e3 = putOrderBook (e2\<lparr>world := w4\<rparr>) smb b1
                                 in if ok
                                    then (Some r, matchAndPublish (notifyOrderStatusChanged e3 r) smb)
                                    else (None, e3)))))"



definition engine_modifyOrder ::
  "TradingEngine \<Rightarrow> UserId \<Rightarrow> OrderId \<Rightarrow> Quantity \<Rightarrow> Price \<Rightarrow> bool \<times> TradingEngine" where
  "engine_modifyOrder e uid oid newQuantity newPrice =
     (if getUser e uid = None then (False, e)
      else if newPrice < Fin 0 then (False, e)
      else
        (case allOrders e oid of
           None \<Rightarrow> (False, e)
         | Some r \<Rightarrow>
             if userId (heap (world e) r) \<noteq> uid then (False, e)
             else
               let smb = symbol (heap (world e) r)
               in (case map_of (orderBooks e) smb of
                     None \<Rightarrow> (False, e)
                   | Some b \<Rightarrow>
                       (case book_modifyOrder (world e) b oid newQuantity newPrice of
                          (ok, w1, b1) \<Rightarrow>
                            let e1 = putOrderBook (e\<lparr>world := w1\<rparr>) smb b1
                            in if ok then
                                 (case getOrder (bookOf e1 smb) oid of
                                    None \<Rightarrow> (True, e1)
                                  | Some m \<Rightarrow>
                                      let e2 = e1\<lparr>allOrders := (allOrders e1)(oid \<mapsto> m)\<rparr>;
                                          e3 = notifyOrderStatusChanged e2 m
                                      in (True, matchAndPublish e3 smb))
                               else (False, e1)))))"

definition getOrderStatus :: "TradingEngine \<Rightarrow> UserId \<Rightarrow> OrderId \<Rightarrow> nat option" where
  "getOrderStatus e uid oid =
     (if getUser e uid = None then None
      else (case allOrders e oid of
              None \<Rightarrow> None
            | Some r \<Rightarrow> if userId (heap (world e) r) = uid then Some r else None))"

text \<open>The engine as \<open>getInstance\<close> first creates it, in a given environment.\<close>

definition newWorld :: "(nat \<Rightarrow> string) \<Rightarrow> (nat \<Rightarrow> Timestamp) \<Rightarrow> (nat \<Rightarrow> nat) \<Rightarrow> World" where
  "newWorld us cs ns =
     \<lparr>heap = (\<lambda>_. newMarketOrder [] [] BUY [] 0 0), next_ref = 0,
      uuid_src = us, uuid_calls = 0, clock_src = cs, clock_calls = 0,
      insert_src = ns, insert_calls = 0\<rparr>"

definition newTradingEngine ::
  "(nat \<Rightarrow> string) \<Rightarrow> (nat \<Rightarrow> Timestamp) \<Rightarrow> (nat \<Rightarrow> nat) \<Rightarrow> TradingEngine" where
  "newTradingEngine us cs ns =
     \<lparr>world = newWorld us cs ns, orderBooks = [], users = Map.empty, observers = [],
      allOrders = Map.empty, callbacks = []\<rparr>"

section \<open>Predicates of the specification\<close>

subsection \<open>Strict weak orders\<close>












subsection \<open>Frames and the cross\<close>

text \<open>
  \<open>sameIdentity a b\<close>: the two values agree on every field except \<open>status\<close> and
  \<open>filledQuantity\<close>.
\<close>

definition sameIdentity :: "Order \<Rightarrow> Order \<Rightarrow> bool" where
  "sameIdentity a b =
     (orderClass a = orderClass b \<and> orderId a = orderId b \<and> userId a = userId b \<and>
      orderType a = orderType b \<and> symbol a = symbol b \<and> quantity a = quantity b \<and>
      price a = price b \<and> timestamp a = timestamp b \<and> timeInForce a = timeInForce b)"

definition noResidualCross :: "World \<Rightarrow> OrderBook \<Rightarrow> bool" where
  "noResidualCross w b =
     (buyOrders b \<noteq> [] \<and> sellOrders b \<noteq> [] \<longrightarrow> getBestBid w b < getBestAsk w b)"

text \<open>The trades that the callbacks made so far have delivered, in order.\<close>

definition tradesDelivered :: "TradingEngine \<Rightarrow> Trade list" where
  "tradesDelivered e =
     concat (map (\<lambda>(ob, ev). case ev of OnTradeExecuted t \<Rightarrow> [t] | OnOrderStatusChanged _ _ \<Rightarrow> [])
               (callbacks e))"

subsection \<open>Well-formed books\<close>

text \<open>
  \<open>book_wf w b\<close> relates the two queues and the id-map of a book. Each queue holds
  distinct handles; every order in the bid queue is a BUY order and every order in the
  ask queue a SELL order; every queued order is found in the id-map under its own id and
  has status ACCEPTED or PARTIALLY_FILLED. Every entry of the id-map points to an
  allocated order of that id and of the book's symbol which is either in a queue or has
  status FILLED or CANCELLED.
\<close>

definition liveStatus :: "OrderStatus \<Rightarrow> bool" where
  "liveStatus st = (st = ACCEPTED \<or> st = PARTIALLY_FILLED)"

definition restingOk :: "(nat \<Rightarrow> Order) \<Rightarrow> (OrderId \<rightharpoonup> nat) \<Rightarrow> OrderType \<Rightarrow> nat \<Rightarrow> bool" where
  "restingOk h lk ty r =
     (orderType (h r) = ty \<and> lk (orderId (h r)) = Some r \<and> liveStatus (status (h r)))"

definition sideOk :: "World \<Rightarrow> OrderBook \<Rightarrow> OrderType \<Rightarrow> nat list \<Rightarrow> bool" where
  "sideOk w b ty q = (distinct q \<and> (\<forall>r\<in>set q. restingOk (heap w) (orderLookup b) ty r))"

definition entryOk :: "World \<Rightarrow> OrderBook \<Rightarrow> OrderId \<Rightarrow> nat \<Rightarrow> bool" where
  "entryOk w b oid r =
     (orderId (heap w r) = oid \<and> r < next_ref w \<and> symbol (heap w r) = bookSymbol b \<and>
      (r \<in> set (buyOrders b) \<union> set (sellOrders b) \<or>
       status (heap w r) = FILLED \<or> status (heap w r) = CANCELLED))"

definition lookupOk :: "World \<Rightarrow> OrderBook \<Rightarrow> bool" where
  "lookupOk w b = (\<forall>oid r. orderLookup b oid = Some r \<longrightarrow> entryOk w b oid r)"

definition book_wf :: "World \<Rightarrow> OrderBook \<Rightarrow> bool" where
  "book_wf w b =
     (sideOk w b BUY (buyOrders b) \<and> sideOk w b SELL (sellOrders b) \<and> lookupOk w b)"

text \<open>
  Taking an order out of the queue of its side, putting one into the queue of its side,
  and the replacement that \<open>modifyOrder\<close> amounts to: the old object leaves its queue,
  a copy with the new quantity and price and status ACCEPTED, at a new address, is put
  into the queue, and the id-map entry is redirected to the copy. \<open>modifiable\<close> says
  when \<open>setQuantity\<close> and \<open>setPrice\<close> accept the new values on the copy.
\<close>

definition removeResting :: "World \<Rightarrow> OrderBook \<Rightarrow> nat \<Rightarrow> OrderBook" where
  "removeResting w b r =
     (if orderType (heap w r) = BUY then b\<lparr>buyOrders := remove1 r (buyOrders b)\<rparr>
      else b\<lparr>sellOrders := remove1 r (sellOrders b)\<rparr>)"

definition insertResting :: "World \<Rightarrow> OrderBook \<Rightarrow> nat \<Rightarrow> OrderBook" where
  "insertResting w b m =
     (if orderType (heap w m) = BUY
      then b\<lparr>buyOrders :=
               multiset_insert BuyOrderComparator (heap w) (insert_src w (insert_calls w)) m (buyOrders b)\<rparr>
      else b\<lparr>sellOrders :=
               multiset_insert SellOrderComparator (heap w) (insert_src w (insert_calls w)) m (sellOrders b)\<rparr>)"

definition reinsertModified ::
  "World \<Rightarrow> OrderBook \<Rightarrow> OrderId \<Rightarrow> nat \<Rightarrow> Quantity \<Rightarrow> Price \<Rightarrow> bool \<times> World \<times> OrderBook" where
  "reinsertModified w b oid r q p =
     (let m = next_ref w;
          c = (heap w r)\<lparr>quantity := q, price := p, status := ACCEPTED\<rparr>;
          w1 = w\<lparr>heap := (heap w)(m := c), next_ref := m + 1\<rparr>;
          b1 = removeResting w b r;
          b2 = insertResting w1 b1 m
      in (True, w1\<lparr>insert_calls := insert_calls w + 1\<rparr>,
          b2\<lparr>orderLookup := (orderLookup b2)(oid \<mapsto> m)\<rparr>))"

definition modifiable :: "Order \<Rightarrow> Quantity \<Rightarrow> Price \<Rightarrow> bool" where
  "modifiable ord q p =
     (canModify ord \<and> orderClass ord = LimitOrder \<and> 0 < q \<and> q \<le> MAX_ORDER_QUANTITY \<and>
      \<not> p < MIN_ORDER_PRICE \<and> \<not> p > MAX_ORDER_PRICE)"

text \<open>
  \<open>placedBy cmp h m q q'\<close>: the queue \<open>q'\<close> is the queue \<open>q\<close> with the order \<open>m\<close> put in
  at a place where the order right before it, if there is one, is not ordered after \<open>m\<close>
  by the comparator, and the order right after it, if there is one, is.
\<close>

definition placedBy ::
  "(Order \<Rightarrow> Order \<Rightarrow> bool) \<Rightarrow> (nat \<Rightarrow> Order) \<Rightarrow> nat \<Rightarrow> nat list \<Rightarrow> nat list \<Rightarrow> bool" where
  "placedBy cmp h m q q' =
     (\<exists>k\<in>set [0..<Suc (length q)].
        q' = take k q @ m # drop k q \<and>
        (0 < k \<longrightarrow> \<not> cmp (h m) (h (q ! (k - 1)))) \<and>
        (k < length q \<longrightarrow> cmp (h m) (h (q ! k))))"

subsection \<open>Example states\<close>

text \<open>
  A book holding a bid of 1000 at 600 and an ask of 300 at 590, not yet matched; a third
  order object exists but has not been added to the book.
\<close>

definition crossWorld :: World where
  "crossWorld =
     \<lparr>heap = (\<lambda>_. newMarketOrder [] [] BUY [] 0 0)
        (0 := (newLimitOrder ''a'' ''U1'' BUY ''X'' 1000 (Fin 600) 1)\<lparr>status := ACCEPTED\<rparr>,
         1 := (newLimitOrder ''b'' ''U2'' SELL ''X'' 300 (Fin 590) 2)\<lparr>status := ACCEPTED\<rparr>,
         2 := newLimitOrder ''c'' ''U1'' BUY ''X'' 5 (Fin 580) 3),
      next_ref = 3, uuid_src = (\<lambda>n. ''t''), uuid_calls = 0,
      clock_src = (\<lambda>n. n + 3), clock_calls = 0,
      insert_src = (\<lambda>n. 0), insert_calls = 0\<rparr>"

definition crossBook :: OrderBook where
  "crossBook = \<lparr>bookSymbol = ''X'', buyOrders = [0], sellOrders = [1],
                 orderLookup = [''a'' \<mapsto> 0, ''b'' \<mapsto> 1]\<rparr>"

text \<open>
  A book with three resting bids: two at 105 and, behind them, one at 104.
\<close>

definition tiedWorld :: World where
  "tiedWorld =
     \<lparr>heap = (\<lambda>_. newMarketOrder [] [] BUY [] 0 0)
        (0 := (newLimitOrder ''a'' ''U1'' BUY ''X'' 100 (Fin 105) 1)\<lparr>status := ACCEPTED\<rparr>,
         1 := (newLimitOrder ''b'' ''U2'' BUY ''X'' 50 (Fin 105) 2)\<lparr>status := ACCEPTED\<rparr>,
         2 := (newLimitOrder ''c'' ''U1'' BUY ''X'' 20 (Fin 104) 3)\<lparr>status := ACCEPTED\<rparr>),
      next_ref = 3, uuid_src = (\<lambda>n. ''t''), uuid_calls = 0,
      clock_src = (\<lambda>n. n + 4), clock_calls = 0,
      insert_src = (\<lambda>n. 0), insert_calls = 0\<rparr>"

definition tiedBook :: OrderBook where
  "tiedBook = \<lparr>bookSymbol = ''X'', buyOrders = [0, 1, 2], sellOrders = [],
                orderLookup = [''a'' \<mapsto> 0, ''b'' \<mapsto> 1, ''c'' \<mapsto> 2]\<rparr>"

text \<open>
  An engine with two users and one observer, in an environment whose identifiers are
  all different and whose clock is strictly increasing. In the runs below every
  insertion into a queue has exactly one place that \<open>insertPlace\<close> admits, so they do
  not depend on \<open>insert_src\<close>.
\<close>

definition uuidStream :: "nat \<Rightarrow> string" where
  "uuidStream n = replicate (Suc n) (CHR ''u'')"

definition clockStream :: "nat \<Rightarrow> Timestamp" where
  "clockStream n = n"

definition firstPlace :: "nat \<Rightarrow> nat" where
  "firstPlace n = 0"

definition engine0 :: TradingEngine where
  "engine0 =
     registerObserver
       (snd (registerUser
          (snd (registerUser (newTradingEngine uuidStream clockStream firstPlace)
             (Some \<lparr>user_userId = ''U1'', userName = ''A'', phoneNumber = ''1'', emailId = ''a@x''\<rparr>)))
          (Some \<lparr>user_userId = ''U2'', userName = ''B'', phoneNumber = ''2'', emailId = ''b@x''\<rparr>)))
       (Some 7)"

text \<open>A bid of 100 at 105 rests; then an ask of 40 at 100 arrives.\<close>

definition restingBid :: TradingEngine where
  "restingBid = snd (placeOrder engine0 ''U1'' BUY ''X'' 100 (Fin 105))"

definition askArrives :: TradingEngine where
  "askArrives = snd (placeOrder restingBid ''U2'' SELL ''X'' 40 (Fin 100))"

text \<open>
  A second bid at the same price 105 joins the resting bid; then the first bid is
  modified to quantity 70 at the same price. In another run the resting bid is cancelled.
\<close>

definition twoBids :: TradingEngine where
  "twoBids = snd (placeOrder restingBid ''U2'' BUY ''X'' 50 (Fin 105))"

definition modifiedBid :: TradingEngine where
  "modifiedBid = snd (engine_modifyOrder twoBids ''U1'' (uuidStream 0) 70 (Fin 105))"


section \<open>Properties of Order\<close>

text \<open>
  C10. A fill whose quantity is strictly greater than the order's remaining quantity
  leaves the order object exactly as it was: no field changes.
\<close>

theorem fill_too_large_noop:
  "fillQuantity > getRemainingQuantity ord \<Longrightarrow> fill ord fillQuantity = ord"
  by (simp add: fill_def)

theorem fill_too_large_noop_witness:
  "(8::int) > getRemainingQuantity (newLimitOrder ''o1'' ''u1'' BUY ''X'' 5 (Fin 100) 1)
   \<and> fill (newLimitOrder ''o1'' ''u1'' BUY ''X'' 5 (Fin 100) 1) 8
       = newLimitOrder ''o1'' ''u1'' BUY ''X'' 5 (Fin 100) 1"
proof -
  have h: "(8::int) > getRemainingQuantity (newLimitOrder ''o1'' ''u1'' BUY ''X'' 5 (Fin 100) 1)"
    by (simp add: getRemainingQuantity_def newLimitOrder_def)
  show ?thesis using h fill_too_large_noop [OF h] by simp
qed

section \<open>The matching loop\<close>

lemma matchLoop_stop:
  "buyOrders b = [] \<or> sellOrders b = [] \<or>
   price (heap w (hd (buyOrders b))) < price (heap w (hd (sellOrders b))) \<Longrightarrow>
   matchLoop w b ts = (ts, w, b)"
  by (subst matchLoop.simps) (auto simp: Let_def)

lemma matchLoop_step:
  "buyOrders b \<noteq> [] \<Longrightarrow> sellOrders b \<noteq> [] \<Longrightarrow>
   \<not> price (heap w (hd (buyOrders b))) < price (heap w (hd (sellOrders b))) \<Longrightarrow>
   matchLoop w b ts =
     (case matchBody w b (hd (buyOrders b)) (hd (sellOrders b)) of
        (t, w', b') \<Rightarrow> matchLoop w' b' (ts @ [t]))"
  by (subst matchLoop.simps) (simp add: Let_def)

lemma matchLoop_acc:
  "matchLoop w b ts = (case matchLoop w b [] of (us, w', b') \<Rightarrow> (ts @ us, w', b'))"
proof (induction "matchMeasure w b" arbitrary: w b ts rule: less_induct)
  case less
  show ?case
  proof (cases "buyOrders b \<noteq> [] \<and> sellOrders b \<noteq> [] \<and>
      \<not> price (heap w (hd (buyOrders b))) < price (heap w (hd (sellOrders b)))")
    case False
    then show ?thesis by (auto simp: matchLoop_stop)
  next
    case True
    obtain t w' b' where mb: "matchBody w b (hd (buyOrders b)) (hd (sellOrders b)) = (t, w', b')"
      by (cases "matchBody w b (hd (buyOrders b)) (hd (sellOrders b))") auto
    with True have m: "matchMeasure w' b' < matchMeasure w b"
      using matchBody_measure by blast
    obtain us w'' b'' where rest: "matchLoop w' b' [] = (us, w'', b'')"
      by (cases "matchLoop w' b' []") auto
    have "matchLoop w' b' (ts @ [t]) = ((ts @ [t]) @ us, w'', b'')"
      using less [OF m, of "ts @ [t]"] rest by simp
    moreover have "matchLoop w' b' [t] = ([t] @ us, w'', b'')"
      using less [OF m, of "[t]"] rest by simp
    ultimately show ?thesis
      using True mb by (simp add: matchLoop_step)
  qed
qed

lemma matchOrders_unfold:
  "matchOrders w b =
     (if buyOrders b = [] \<or> sellOrders b = [] then ([], w, b)
      else if price (heap w (hd (buyOrders b))) < price (heap w (hd (sellOrders b)))
      then ([], w, b)
      else (case matchBody w b (hd (buyOrders b)) (hd (sellOrders b)) of
              (t, w1, b1) \<Rightarrow>
                (case matchOrders w1 b1 of (ts, w2, b2) \<Rightarrow> (t # ts, w2, b2))))"
proof -
  obtain t w1 b1 where mb: "matchBody w b (hd (buyOrders b)) (hd (sellOrders b)) = (t, w1, b1)"
    by (cases "matchBody w b (hd (buyOrders b)) (hd (sellOrders b))") auto
  obtain ts w2 b2 where rest: "matchLoop w1 b1 [] = (ts, w2, b2)"
    by (cases "matchLoop w1 b1 []") auto
  have "matchLoop w1 b1 [t] = (t # ts, w2, b2)"
    using matchLoop_acc [of w1 b1 "[t]"] rest by simp
  with mb rest show ?thesis
    unfolding matchOrders_def by (simp add: matchLoop_stop matchLoop_step)
qed

lemma fill_fields:
  "orderClass (fill ord n) = orderClass ord" "orderId (fill ord n) = orderId ord"
  "userId (fill ord n) = userId ord" "orderType (fill ord n) = orderType ord"
  "symbol (fill ord n) = symbol ord" "quantity (fill ord n) = quantity ord"
  "price (fill ord n) = price ord" "timestamp (fill ord n) = timestamp ord"
  "timeInForce (fill ord n) = timeInForce ord"
  by (simp_all add: fill_def Let_def)

lemma fill_applies:
  "n \<le> getRemainingQuantity ord \<Longrightarrow> filledQuantity (fill ord n) = filledQuantity ord + n"
  by (simp add: fill_def Let_def)

lemma sameIdentity_refl [simp]: "sameIdentity a a"
  by (simp add: sameIdentity_def)

lemma sameIdentity_fill [simp]: "sameIdentity (fill ord n) ord"
  by (simp add: sameIdentity_def fill_fields)


lemma in_set_tl: "x \<in> set (tl xs) \<Longrightarrow> x \<in> set xs"
  by (cases xs) auto

lemma matchBody_trade:
  assumes "matchBody w b x y = (t, w1, b1)"
  shows "tradeQuantity t = min (getRemainingQuantity (heap w x)) (getRemainingQuantity (heap w y))"
    and "tradePrice t = price (heap w y)"
    and "buyerOrderId t = orderId (heap w x)"
    and "sellerOrderId t = orderId (heap w y)"
    and "tradeSymbol t = bookSymbol b"
  using assms
  by (auto simp: matchBody_def Let_def generateUUID_def getCurrentTimestamp_def)

lemma matchBody_frame:
  assumes "matchBody w b x y = (t, w1, b1)"
  shows "sameIdentity (heap w1 r) (heap w r)"
    and "next_ref w1 = next_ref w"
    and "orderLookup b1 = orderLookup b" and "bookSymbol b1 = bookSymbol b"
    and "set (buyOrders b1) \<subseteq> set (buyOrders b)"
    and "set (sellOrders b1) \<subseteq> set (sellOrders b)"
  using assms
  by (auto simp: matchBody_def Let_def generateUUID_def getCurrentTimestamp_def
      sameIdentity_def fill_fields dest: in_set_tl split: if_splits)

lemma matchBody_distinct:
  assumes "bestBuy \<noteq> bestSell"
    and "matchBody w b bestBuy bestSell = (t, w1, b1)"
  shows "filledQuantity (heap w1 bestBuy) = filledQuantity (heap w bestBuy) + tradeQuantity t"
    and "filledQuantity (heap w1 bestSell) = filledQuantity (heap w bestSell) + tradeQuantity t"
    and "\<forall>r. r \<noteq> bestBuy \<and> r \<noteq> bestSell \<longrightarrow> heap w1 r = heap w r"
    and "buyOrders b1 = (if getRemainingQuantity (heap w1 bestBuy) = 0 then tl (buyOrders b) else buyOrders b)"
    and "sellOrders b1 = (if getRemainingQuantity (heap w1 bestSell) = 0 then tl (sellOrders b) else sellOrders b)"
  using assms
  by (auto simp: matchBody_def Let_def generateUUID_def getCurrentTimestamp_def fill_applies)

lemma matchOrders_stop:
  "buyOrders b = [] \<or> sellOrders b = [] \<or>
   price (heap w (hd (buyOrders b))) < price (heap w (hd (sellOrders b))) \<Longrightarrow>
   matchOrders w b = ([], w, b)"
  unfolding matchOrders_def by (rule matchLoop_stop)

lemma matchOrders_step:
  assumes "buyOrders b \<noteq> []" "sellOrders b \<noteq> []"
    and "\<not> price (heap w (hd (buyOrders b))) < price (heap w (hd (sellOrders b)))"
    and "matchBody w b (hd (buyOrders b)) (hd (sellOrders b)) = (t, w1, b1)"
    and "matchOrders w1 b1 = (ts, w2, b2)"
  shows "matchOrders w b = (t # ts, w2, b2)"
  using assms by (simp add: matchOrders_unfold [of w b])

lemma matchOrders_induct [consumes 1, case_names stop step]:
  assumes run: "matchOrders w b = (ts, w', b')"
    and stop: "\<And>w b. buyOrders b = [] \<or> sellOrders b = [] \<or>
        price (heap w (hd (buyOrders b))) < price (heap w (hd (sellOrders b))) \<Longrightarrow> P w b [] w b"
    and step: "\<And>w b t w1 b1 ts w2 b2.
        buyOrders b \<noteq> [] \<Longrightarrow> sellOrders b \<noteq> [] \<Longrightarrow>
        \<not> price (heap w (hd (buyOrders b))) < price (heap w (hd (sellOrders b))) \<Longrightarrow>
        matchBody w b (hd (buyOrders b)) (hd (sellOrders b)) = (t, w1, b1) \<Longrightarrow>
        matchOrders w1 b1 = (ts, w2, b2) \<Longrightarrow> P w1 b1 ts w2 b2 \<Longrightarrow> P w b (t # ts) w2 b2"
  shows "P w b ts w' b'"
  using run
proof (induction "matchMeasure w b" arbitrary: w b ts w' b' rule: less_induct)
  case less
  show ?case
  proof (cases "buyOrders b = [] \<or> sellOrders b = [] \<or>
      price (heap w (hd (buyOrders b))) < price (heap w (hd (sellOrders b)))")
    case True
    with less.prems have "ts = []" "w' = w" "b' = b"
      by (simp_all add: matchOrders_stop)
    with True show ?thesis using stop by simp
  next
    case False
    obtain t w1 b1 where mb: "matchBody w b (hd (buyOrders b)) (hd (sellOrders b)) = (t, w1, b1)"
      by (cases "matchBody w b (hd (buyOrders b)) (hd (sellOrders b))") auto
    obtain us w2 b2 where rest: "matchOrders w1 b1 = (us, w2, b2)"
      by (cases "matchOrders w1 b1") auto
    from False mb have m: "matchMeasure w1 b1 < matchMeasure w b"
      using matchBody_measure by blast
    from False mb rest less.prems have eq: "ts = t # us" "w' = w2" "b' = b2"
      by (simp_all add: matchOrders_step [of b w t w1 b1 us w2 b2])
    have "P w1 b1 us w2 b2" by (rule less.hyps [OF m rest])
    with False mb rest have "P w b (t # us) w2 b2"
      by (intro step) auto
    with eq show ?thesis by simp
  qed
qed


lemma matchOrders_trades:
  assumes "matchOrders w b = (ts, w', b')" and "t \<in> set ts"
  shows "\<exists>s\<in>set (sellOrders b). \<exists>r\<in>set (buyOrders b).
           sellerOrderId t = orderId (heap w s) \<and> buyerOrderId t = orderId (heap w r) \<and>
           tradePrice t = price (heap w s) \<and> \<not> price (heap w r) < price (heap w s)"
  using assms
proof (induction rule: matchOrders_induct)
  case (stop w b)
  then show ?case by simp
next
  case (step w b t0 w1 b1 ts w2 b2)
  show ?case
  proof (cases "t = t0")
    case True
    have mem: "hd (sellOrders b) \<in> set (sellOrders b)" "hd (buyOrders b) \<in> set (buyOrders b)"
      using step(1,2) by simp_all
    have "sellerOrderId t = orderId (heap w (hd (sellOrders b))) \<and>
          buyerOrderId t = orderId (heap w (hd (buyOrders b))) \<and>
          tradePrice t = price (heap w (hd (sellOrders b))) \<and>
          \<not> price (heap w (hd (buyOrders b))) < price (heap w (hd (sellOrders b)))"
      using True matchBody_trade(2,3,4) [OF step(4)] step(3) by simp
    with mem show ?thesis by blast
  next
    case False
    with step(6,7) have "\<exists>s\<in>set (sellOrders b1). \<exists>r\<in>set (buyOrders b1).
           sellerOrderId t = orderId (heap w1 s) \<and> buyerOrderId t = orderId (heap w1 r) \<and>
           tradePrice t = price (heap w1 s) \<and> \<not> price (heap w1 r) < price (heap w1 s)"
      by simp
    then obtain s r where sr: "s \<in> set (sellOrders b1)" "r \<in> set (buyOrders b1)"
        "sellerOrderId t = orderId (heap w1 s)" "buyerOrderId t = orderId (heap w1 r)"
        "tradePrice t = price (heap w1 s)" "\<not> price (heap w1 r) < price (heap w1 s)"
      by blast
    have id: "sameIdentity (heap w1 x) (heap w x)" for x
      by (rule matchBody_frame(1) [OF step(4)])
    have same: "orderId (heap w1 s) = orderId (heap w s)" "price (heap w1 s) = price (heap w s)"
        "orderId (heap w1 r) = orderId (heap w r)" "price (heap w1 r) = price (heap w r)"
      using id [of s] id [of r] by (simp_all add: sameIdentity_def)
    have mem: "s \<in> set (sellOrders b)" "r \<in> set (buyOrders b)"
      using sr(1,2) matchBody_frame(5,6) [OF step(4)] by auto
    have "sellerOrderId t = orderId (heap w s) \<and> buyerOrderId t = orderId (heap w r) \<and>
          tradePrice t = price (heap w s) \<and> \<not> price (heap w r) < price (heap w s)"
      using sr(3-6) by (simp add: same)
    with mem show ?thesis by blast
  qed
qed

lemma matchOrders_noResidualCross:
  assumes "matchOrders w b = (ts, w', b')"
  shows "noResidualCross w' b'"
  using assms
proof (induction rule: matchOrders_induct)
  case (stop w b)
  then show ?case
    by (cases "buyOrders b"; cases "sellOrders b")
      (auto simp: noResidualCross_def getBestBid_def getBestAsk_def)
next
  case (step w b t w1 b1 ts w2 b2)
  then show ?case by simp
qed

text \<open>
  C1. \<open>matchOrders\<close> returns no trade and changes nothing when a side is empty or the
  best bid's price is strictly below the best ask's price; otherwise it makes one trade
  on the two best orders and goes on with the loop, the trade first in the result. For
  two distinct best orders, the trade is for the minimum of the two remaining
  quantities, both orders are filled by exactly that quantity, no other order object
  changes, and a side's best order is removed exactly when its remaining quantity has
  become 0.
\<close>

theorem matchOrders_loop:
  "matchOrders w b =
     (if buyOrders b = [] \<or> sellOrders b = [] then ([], w, b)
      else if price (heap w (hd (buyOrders b))) < price (heap w (hd (sellOrders b)))
      then ([], w, b)
      else (case matchBody w b (hd (buyOrders b)) (hd (sellOrders b)) of
              (t, w1, b1) \<Rightarrow>
                (case matchOrders w1 b1 of (ts, w2, b2) \<Rightarrow> (t # ts, w2, b2))))
   \<and> (\<forall>bestBuy bestSell t w1 b1.
        bestBuy \<noteq> bestSell \<and> matchBody w b bestBuy bestSell = (t, w1, b1) \<longrightarrow>
          tradeQuantity t = min (getRemainingQuantity (heap w bestBuy))
                                (getRemainingQuantity (heap w bestSell)) \<and>
          buyerOrderId t = orderId (heap w bestBuy) \<and>
          sellerOrderId t = orderId (heap w bestSell) \<and>
          filledQuantity (heap w1 bestBuy) = filledQuantity (heap w bestBuy) + tradeQuantity t \<and>
          filledQuantity (heap w1 bestSell) = filledQuantity (heap w bestSell) + tradeQuantity t \<and>
          (\<forall>r. r \<noteq> bestBuy \<and> r \<noteq> bestSell \<longrightarrow> heap w1 r = heap w r) \<and>
          buyOrders b1 = (if getRemainingQuantity (heap w1 bestBuy) = 0
                          then tl (buyOrders b) else buyOrders b) \<and>
          sellOrders b1 = (if getRemainingQuantity (heap w1 bestSell) = 0
                           then tl (sellOrders b) else sellOrders b))"
proof (intro conjI allI impI, goal_cases)
  case 1
  show ?case by (rule matchOrders_unfold)
next
  case (2 bestBuy bestSell t w1 b1)
  then show ?case using matchBody_trade(1) by blast
next
  case (3 bestBuy bestSell t w1 b1)
  then show ?case using matchBody_trade(3) by blast
next
  case (4 bestBuy bestSell t w1 b1)
  then show ?case using matchBody_trade(4) by blast
next
  case (5 bestBuy bestSell t w1 b1)
  then show ?case using matchBody_distinct(1) by blast
next
  case (6 bestBuy bestSell t w1 b1)
  then show ?case using matchBody_distinct(2) by blast
next
  case (7 bestBuy bestSell t w1 b1 r)
  then show ?case using matchBody_distinct(3) by blast
next
  case (8 bestBuy bestSell t w1 b1)
  then show ?case using matchBody_distinct(4) by blast
next
  case (9 bestBuy bestSell t w1 b1)
  then show ?case using matchBody_distinct(5) by blast
qed

theorem matchOrders_loop_witness:
  "(0::nat) \<noteq> 1 \<and>
   buyOrders crossBook \<noteq> [] \<and> sellOrders crossBook \<noteq> [] \<and>
   \<not> price (heap crossWorld (hd (buyOrders crossBook)))
       < price (heap crossWorld (hd (sellOrders crossBook))) \<and>
   (case matchOrders crossWorld crossBook of
      (ts, w2, b2) \<Rightarrow>
        map tradeQuantity ts = [300] \<and> map buyerOrderId ts = [''a''] \<and>
        map sellerOrderId ts = [''b''] \<and>
        filledQuantity (heap w2 0) = 300 \<and> filledQuantity (heap w2 1) = 300 \<and>
        buyOrders b2 = [0] \<and> sellOrders b2 = [])"
proof -
  obtain t w1 b1 where mb: "matchBody crossWorld crossBook 0 (Suc 0) = (t, w1, b1)"
    by (cases "matchBody crossWorld crossBook 0 (Suc 0)") auto
  have hds: "hd (buyOrders crossBook) = 0" "hd (sellOrders crossBook) = Suc 0"
      "buyOrders crossBook = [0]" "sellOrders crossBook = [Suc 0]"
    by (simp_all add: crossBook_def)
  have pr: "\<not> price (heap crossWorld 0) < price (heap crossWorld (Suc 0))"
      "getRemainingQuantity (heap crossWorld 0) = 1000"
      "getRemainingQuantity (heap crossWorld (Suc 0)) = 300"
      "filledQuantity (heap crossWorld 0) = 0" "filledQuantity (heap crossWorld (Suc 0)) = 0"
      "orderId (heap crossWorld 0) = ''a''" "orderId (heap crossWorld (Suc 0)) = ''b''"
      "quantity (heap crossWorld 0) = 1000" "quantity (heap crossWorld (Suc 0)) = 300"
    by (simp_all add: crossWorld_def newLimitOrder_def getRemainingQuantity_def)
  from matchOrders_loop [of crossWorld crossBook, THEN conjunct2, rule_format, of 0 "Suc 0" t w1 b1] mb
  have body: "tradeQuantity t = 300" "buyerOrderId t = ''a''" "sellerOrderId t = ''b''"
      "filledQuantity (heap w1 0) = 300" "filledQuantity (heap w1 (Suc 0)) = 300"
      "buyOrders b1 = (if getRemainingQuantity (heap w1 0) = 0 then [] else [0])"
      "sellOrders b1 = (if getRemainingQuantity (heap w1 (Suc 0)) = 0 then [] else [Suc 0])"
    by (simp_all add: hds pr)
  have q: "quantity (heap w1 0) = 1000" "quantity (heap w1 (Suc 0)) = 300"
    using matchBody_frame(1) [OF mb, of 0] matchBody_frame(1) [OF mb, of "Suc 0"]
    by (simp_all add: sameIdentity_def pr)
  from body q have b1: "buyOrders b1 = [0]" "sellOrders b1 = []"
    by (simp_all add: getRemainingQuantity_def)
  from matchOrders_loop [of w1 b1, THEN conjunct1] b1
  have stop: "matchOrders w1 b1 = ([], w1, b1)"
    by simp
  from matchOrders_loop [of crossWorld crossBook, THEN conjunct1] mb stop
  have "matchOrders crossWorld crossBook = ([t], w1, b1)"
    by (simp add: hds pr)
  with body b1 show ?thesis by (simp add: hds pr)
qed

lemma cross_trades:
  "fst (matchOrders crossWorld crossBook) =
     [\<lparr>tradeId = ''t'', tradeType = BUY, buyerOrderId = ''a'', sellerOrderId = ''b'',
       tradeSymbol = ''X'', tradeQuantity = 300, tradePrice = Fin 590, tradeTimestamp = 3\<rparr>]"
  by code_simp

subsection \<open>The trade price\<close>

text \<open>
  C2, as stated, fails. A bid of 100 at 105 is placed first and rests alone in the book;
  then an ask of 40 at 100 is placed. The one trade is between these two orders, and its
  price is 100, the price of the incoming ask, not 105, the price of the resting bid.
\<close>

theorem sell_aggressor_sets_trade_price:
  "orderType (heap (world askArrives) 0) = BUY \<and> price (heap (world askArrives) 0) = Fin 105 \<and>
   orderType (heap (world askArrives) 1) = SELL \<and> price (heap (world askArrives) 1) = Fin 100 \<and>
   buyOrders (bookOf restingBid ''X'') = [0] \<and> sellOrders (bookOf restingBid ''X'') = [] \<and>
   timestamp (heap (world askArrives) 0) < timestamp (heap (world askArrives) 1) \<and>
   map buyerOrderId (tradesDelivered askArrives) = [orderId (heap (world askArrives) 0)] \<and>
   map sellerOrderId (tradesDelivered askArrives) = [orderId (heap (world askArrives) 1)] \<and>
   map tradePrice (tradesDelivered askArrives) = [Fin 100] \<and>
   map tradePrice (tradesDelivered askArrives) \<noteq> [price (heap (world askArrives) 0)]"
  by code_simp

text \<open>
  C2, amended. Every trade produced by \<open>matchOrders\<close> is between a sell order and a buy
  order of the book and executes at the price of that sell order (the best ask when the
  trade is made), whichever of the two arrived first; that price is never above the
  price of the buy order.
\<close>

theorem trade_price_is_ask_price:
  "matchOrders w b = (ts, w', b') \<Longrightarrow> t \<in> set ts \<Longrightarrow>
   \<exists>s\<in>set (sellOrders b). \<exists>r\<in>set (buyOrders b).
     sellerOrderId t = orderId (heap w s) \<and> buyerOrderId t = orderId (heap w r) \<and>
     tradePrice t = price (heap w s) \<and> \<not> price (heap w r) < price (heap w s)"
  by (rule matchOrders_trades)

theorem trade_price_is_ask_price_witness:
  "fst (matchOrders crossWorld crossBook) \<noteq> [] \<and>
   list_all (\<lambda>t. list_ex (\<lambda>s. list_ex (\<lambda>r.
       sellerOrderId t = orderId (heap crossWorld s) \<and>
       buyerOrderId t = orderId (heap crossWorld r) \<and>
       tradePrice t = price (heap crossWorld s) \<and>
       \<not> price (heap crossWorld r) < price (heap crossWorld s))
     (buyOrders crossBook)) (sellOrders crossBook))
     (fst (matchOrders crossWorld crossBook))"
proof -
  obtain ts w' b' where run: "matchOrders crossWorld crossBook = (ts, w', b')"
    by (cases "matchOrders crossWorld crossBook") auto
  have "\<forall>t\<in>set ts. \<exists>s\<in>set (sellOrders crossBook). \<exists>r\<in>set (buyOrders crossBook).
     sellerOrderId t = orderId (heap crossWorld s) \<and>
     buyerOrderId t = orderId (heap crossWorld r) \<and>
     tradePrice t = price (heap crossWorld s) \<and>
     \<not> price (heap crossWorld r) < price (heap crossWorld s)"
    by (intro ballI) (rule trade_price_is_ask_price [OF run])
  then have "list_all (\<lambda>t. list_ex (\<lambda>s. list_ex (\<lambda>r.
       sellerOrderId t = orderId (heap crossWorld s) \<and>
       buyerOrderId t = orderId (heap crossWorld r) \<and>
       tradePrice t = price (heap crossWorld s) \<and>
       \<not> price (heap crossWorld r) < price (heap crossWorld s))
     (buyOrders crossBook)) (sellOrders crossBook)) ts"
    unfolding list_all_iff list_ex_iff .
  moreover have "ts \<noteq> []" using cross_trades run by simp
  ultimately show ?thesis using run by simp
qed

section \<open>Well-formed books\<close>

lemma set_insert_at: "set (take k q @ r # drop k q) = insert r (set q)"
proof -
  have "set (take k q @ r # drop k q) = insert r (set (take k q @ drop k q))"
    by (simp del: append_take_drop_id)
  then show ?thesis by simp
qed

lemma distinct_insert_at:
  "distinct (take k q @ r # drop k q) = (r \<notin> set q \<and> distinct q)"
proof -
  have "distinct (xs @ r # ys) = (r \<notin> set (xs @ ys) \<and> distinct (xs @ ys))"
    for xs ys
    by auto
  from this [of "take k q" "drop k q"] show ?thesis by simp
qed

lemma set_multiset_insert [simp]: "set (multiset_insert cmp h c r q) = insert r (set q)"
  unfolding multiset_insert_def Let_def by (rule set_insert_at)

lemma distinct_multiset_insert [simp]:
  "distinct (multiset_insert cmp h c r q) = (r \<notin> set q \<and> distinct q)"
  unfolding multiset_insert_def Let_def by (rule distinct_insert_at)

lemma find_holds: "find P xs = Some x \<Longrightarrow> P x \<and> x \<in> set xs"
  by (induction xs) (auto split: if_splits)

lemma eraseById_find:
  "eraseById h oid q =
     (case find (\<lambda>r. orderId (h r) = oid) q of
        None \<Rightarrow> (False, q)
      | Some r \<Rightarrow> (True, remove1 r q))"
  by (induction q) (auto split: option.splits dest: find_holds)

lemma book_wf_resting:
  assumes "book_wf w b" "r \<in> set (buyOrders b) \<union> set (sellOrders b)"
  shows "orderLookup b (orderId (heap w r)) = Some r" "liveStatus (status (heap w r))"
  using assms unfolding book_wf_def sideOk_def restingOk_def by blast+

lemma book_wf_entry:
  assumes "book_wf w b" "orderLookup b oid = Some r"
  shows "entryOk w b oid r"
  using assms unfolding book_wf_def lookupOk_def by blast

lemma book_wf_lookup:
  assumes "book_wf w b" "orderLookup b oid = Some r"
  shows "orderId (heap w r) = oid" "r < next_ref w" "symbol (heap w r) = bookSymbol b"
  using book_wf_entry [OF assms] unfolding entryOk_def by simp_all

lemma book_wf_queue_allocated:
  assumes "book_wf w b" "r \<in> set (buyOrders b) \<union> set (sellOrders b)"
  shows "r < next_ref w" "symbol (heap w r) = bookSymbol b"
  using book_wf_lookup(2,3) [OF assms(1) book_wf_resting(1) [OF assms]] by simp_all

lemma book_wf_types:
  assumes "book_wf w b"
  shows "r \<in> set (buyOrders b) \<Longrightarrow> orderType (heap w r) = BUY"
    and "r \<in> set (sellOrders b) \<Longrightarrow> orderType (heap w r) = SELL"
    and "distinct (buyOrders b)" and "distinct (sellOrders b)"
  using assms unfolding book_wf_def sideOk_def restingOk_def by blast+




lemma find_by_id:
  assumes wf: "book_wf w b" and lk: "orderLookup b oid = Some r"
    and q: "set q \<subseteq> set (buyOrders b) \<union> set (sellOrders b)"
  shows "find (\<lambda>x. orderId (heap w x) = oid) q = (if r \<in> set q then Some r else None)"
proof (cases "find (\<lambda>x. orderId (heap w x) = oid) q")
  case None
  then have "\<forall>x\<in>set q. orderId (heap w x) \<noteq> oid" by (simp add: find_None_iff)
  with book_wf_lookup(1) [OF wf lk] have "r \<notin> set q" by auto
  with None show ?thesis by simp
next
  case (Some x)
  then have x: "orderId (heap w x) = oid" "x \<in> set q" using find_holds [OF Some] by auto
  with q have "orderLookup b (orderId (heap w x)) = Some x"
    using book_wf_resting(1) [OF wf, of x] by auto
  with x lk have "x = r" by simp
  with Some x show ?thesis by simp
qed

lemma resting_side:
  assumes wf: "book_wf w b" and r: "r \<in> set (buyOrders b) \<union> set (sellOrders b)"
  shows "r \<in> set (if orderType (heap w r) = BUY then buyOrders b else sellOrders b)"
  using book_wf_types(1,2) [OF wf, of r] r by auto

lemma eraseFromSide_wf:
  assumes wf: "book_wf w b" and lk: "orderLookup b oid = Some r"
  shows "eraseFromSide w b r oid =
     (if r \<in> set (buyOrders b) \<union> set (sellOrders b) then (True, removeResting w b r)
      else (False, b))"
proof (cases "orderType (heap w r) = BUY")
  case True
  have "r \<notin> set (sellOrders b)" using book_wf_types(2) [OF wf, of r] True by auto
  with True show ?thesis
    by (simp add: eraseFromSide_def eraseById_find removeResting_def
        find_by_id [OF wf lk, of "buyOrders b"])
next
  case False
  have "r \<notin> set (buyOrders b)" using book_wf_types(1) [OF wf, of r] False by auto
  with False show ?thesis
    by (simp add: eraseFromSide_def eraseById_find removeResting_def
        find_by_id [OF wf lk, of "sellOrders b"])
qed

lemma live_resident:
  assumes wf: "book_wf w b" and lk: "orderLookup b oid = Some r"
    and live: "canCancel (heap w r)"
  shows "r \<in> set (buyOrders b) \<union> set (sellOrders b)"
  using book_wf_entry [OF wf lk] live unfolding entryOk_def canCancel_def by auto


lemma removeResting_fields [simp]:
  "orderLookup (removeResting w b r) = orderLookup b"
  "bookSymbol (removeResting w b r) = bookSymbol b"
  by (simp_all add: removeResting_def)




lemma canModify_canCancel: "canModify ord \<Longrightarrow> canCancel ord"
  by (auto simp: canModify_def canCancel_def)

lemma setters_modifiable:
  assumes "modifiable ord q p"
  shows "setQuantity (clone ord) q = (True, ord\<lparr>quantity := q\<rparr>)"
    and "setPrice (ord\<lparr>quantity := q\<rparr>) p = (True, ord\<lparr>quantity := q, price := p\<rparr>)"
  using assms
  by (auto simp: modifiable_def setQuantity_def setPrice_def clone_def canModify_def)

lemma setters_not_modifiable:
  assumes "\<not> modifiable ord q p" "canModify ord"
  shows "\<not> fst (setQuantity (clone ord) q) \<or>
         \<not> fst (setPrice (snd (setQuantity (clone ord) q)) p)"
  using assms
  by (cases "orderClass ord")
     (auto simp: modifiable_def setQuantity_def setPrice_def clone_def canModify_def)

lemma book_modifyOrder_wf_result:
  assumes wf: "book_wf w b"
  shows "book_modifyOrder w b oid q p =
     (case orderLookup b oid of
        None \<Rightarrow> (False, w, b)
      | Some r \<Rightarrow>
          if modifiable (heap w r) q p then reinsertModified w b oid r q p
          else (False, w, b))"
proof (cases "orderLookup b oid")
  case None
  then show ?thesis by (simp add: book_modifyOrder_def)
next
  case (Some r)
  show ?thesis
  proof (cases "canModify (heap w r)")
    case False
    with Some show ?thesis by (simp add: book_modifyOrder_def modifiable_def)
  next
    case cm: True
    show ?thesis
    proof (cases "modifiable (heap w r) q p")
      case False
      from setters_not_modifiable [OF False cm] Some cm False show ?thesis
        by (auto simp: book_modifyOrder_def split: prod.splits)
    next
      case True
      have res: "r \<in> set (buyOrders b) \<union> set (sellOrders b)"
        using live_resident [OF wf Some canModify_canCancel [OF cm]] .
      from True Some cm res show ?thesis
        by (simp add: book_modifyOrder_def setters_modifiable [OF True] eraseFromSide_wf [OF wf Some]
            reinsertModified_def insertResting_def Let_def setStatus_def removeResting_def
            insertChoice_def)
    qed
  qed
qed


lemma fill_status:
  "n \<le> getRemainingQuantity ord \<Longrightarrow>
   status (fill ord n) =
     (if getRemainingQuantity ord = n then FILLED
      else if filledQuantity ord + n > 0 then PARTIALLY_FILLED else status ord)"
  by (auto simp: fill_def Let_def getRemainingQuantity_def)








subsection \<open>The id-map and the queues\<close>




subsection \<open>Modification\<close>

lemma insertPlaces_nonempty: "insertPlaces cmp h r q \<noteq> []"
proof -
  define P where "P = (\<lambda>x. \<not> cmp (h r) (h x))"
  define k where "k = length (takeWhile P q)"
  have le: "k \<le> length q"
    by (simp add: k_def length_takeWhile_le)
  have a: "k = 0 \<or> \<not> cmp (h r) (h (q ! (k - 1)))"
  proof (cases "k = 0")
    case True
    then show ?thesis by simp
  next
    case False
    then have lt: "k - 1 < length (takeWhile P q)" by (simp add: k_def)
    from lt have "takeWhile P q ! (k - 1) = q ! (k - 1)" by (rule takeWhile_nth)
    moreover from lt have "takeWhile P q ! (k - 1) \<in> set (takeWhile P q)" by (rule nth_mem)
    ultimately have "q ! (k - 1) \<in> set (takeWhile P q)" by simp
    then have "P (q ! (k - 1))" by (rule set_takeWhileD [THEN conjunct2])
    then show ?thesis by (simp add: P_def)
  qed
  have b: "k = length q \<or> cmp (h r) (h (q ! k))"
  proof (cases "k = length q")
    case True
    then show ?thesis by simp
  next
    case False
    with le have "k < length q" by simp
    then have "\<not> P (q ! k)" unfolding k_def by (rule nth_length_takeWhile)
    then show ?thesis by (simp add: P_def)
  qed
  from le a b have "k \<in> set (insertPlaces cmp h r q)"
    unfolding insertPlaces_def set_filter by (simp add: insertPlace_def del: upt_Suc)
  then show ?thesis by auto
qed

lemma multiset_insert_placedBy: "placedBy cmp h m q (multiset_insert cmp h c m q)"
proof -
  define ps where "ps = insertPlaces cmp h m q"
  define k where "k = ps ! (c mod length ps)"
  have "ps \<noteq> []" unfolding ps_def by (rule insertPlaces_nonempty)
  then have "c mod length ps < length ps" by simp
  then have "k \<in> set ps" unfolding k_def by (rule nth_mem)
  then have k: "k < Suc (length q)" "insertPlace cmp h m q k"
    unfolding ps_def insertPlaces_def set_filter by (simp_all del: upt_Suc)
  have eq: "multiset_insert cmp h c m q = take k q @ m # drop k q"
    by (simp add: multiset_insert_def Let_def ps_def k_def)
  from k have "k \<in> set [0..<Suc (length q)]" by (simp del: upt_Suc)
  moreover from k(2) have "(0 < k \<longrightarrow> \<not> cmp (h m) (h (q ! (k - 1)))) \<and>
      (k < length q \<longrightarrow> cmp (h m) (h (q ! k)))"
    by (auto simp: insertPlace_def)
  ultimately show ?thesis unfolding placedBy_def using eq by blast
qed

lemma tied_book_wf: "book_wf tiedWorld tiedBook"
  unfolding book_wf_def sideOk_def lookupOk_def restingOk_def entryOk_def
  by (auto simp: tiedWorld_def tiedBook_def newLimitOrder_def liveStatus_def split: if_splits)

text \<open>
  C6, as stated, fails. Two bids rest at the same price 105, the first with timestamp 0
  and the second with timestamp 1. Modifying the first (quantity 70, same price)
  succeeds; the order that replaces it carries the timestamp 0 of the original, the
  clock has not been read, and it is again ahead of the second bid in the queue: ahead
  of the second bid is the only place that the insertion can give it. The arrival time
  is not refreshed, and here the time priority is kept.
\<close>

theorem modified_order_keeps_timestamp:
  "fst (engine_modifyOrder twoBids ''U1'' (uuidStream 0) 70 (Fin 105)) \<and>
   buyOrders (bookOf twoBids ''X'') = [0, 1] \<and>
   price (heap (world twoBids) 0) = Fin 105 \<and> price (heap (world twoBids) 1) = Fin 105 \<and>
   timestamp (heap (world twoBids) 0) = 0 \<and> timestamp (heap (world twoBids) 1) = 1 \<and>
   orderLookup (bookOf modifiedBid ''X'') (uuidStream 0) = Some 2 \<and>
   quantity (heap (world modifiedBid) 2) = 70 \<and>
   timestamp (heap (world modifiedBid) 2) = 0 \<and>
   clock_calls (world modifiedBid) = clock_calls (world twoBids) \<and>
   insertPlaces BuyOrderComparator (heap (world modifiedBid)) 2 [1] = [0] \<and>
   buyOrders (bookOf modifiedBid ''X'') = [2, 1]"
  by code_simp

text \<open>
  C6, amended. On a well-formed book, \<open>modifyOrder\<close> succeeds exactly when the id is in
  the id-map and its order is modifiable with the new values: status PENDING or
  ACCEPTED, a LIMIT order (the price of a MARKET order cannot be set), a quantity in
  \<open>1..MAX_ORDER_QUANTITY\<close>, and a price that compares neither below \<open>MIN_ORDER_PRICE\<close>
  nor above \<open>MAX_ORDER_PRICE\<close>. Otherwise it fails and leaves the store and the book
  unchanged. When it succeeds, the one new object, at the next free address, is a copy
  of the order with the new quantity and price and status ACCEPTED: the same order id
  and the same timestamp as the original; the clock is not read. The id-map entry is
  redirected to the copy. The original leaves its queue and the copy is put into it by
  the comparator, under the original's timestamp: the order right after the copy is
  one that the comparator orders after it, and the order right before the copy is one
  that the comparator does not order after it. The other queue does not change.
\<close>

theorem modifyOrder_replaces_by_copy:
  assumes wf: "book_wf w b"
  shows "book_modifyOrder w b oid q p =
           (case orderLookup b oid of
              None \<Rightarrow> (False, w, b)
            | Some r \<Rightarrow>
                if modifiable (heap w r) q p then reinsertModified w b oid r q p
                else (False, w, b)) \<and>
         fst (book_modifyOrder w b oid q p) =
           (\<exists>r. orderLookup b oid = Some r \<and> modifiable (heap w r) q p) \<and>
         (\<forall>r. orderLookup b oid = Some r \<and> modifiable (heap w r) q p \<longrightarrow>
            (case book_modifyOrder w b oid q p of
               (ok, w', b') \<Rightarrow>
                 heap w' =
                   (heap w)(next_ref w :=
                      (heap w r)\<lparr>quantity := q, price := p, status := ACCEPTED\<rparr>) \<and>
                 orderId (heap w' (next_ref w)) = oid \<and>
                 timestamp (heap w' (next_ref w)) = timestamp (heap w r) \<and>
                 clock_calls w' = clock_calls w \<and>
                 orderLookup b' = (orderLookup b)(oid \<mapsto> next_ref w) \<and>
                 r \<in> set (buyOrders b) \<union> set (sellOrders b) \<and>
                 r \<notin> set (buyOrders b') \<union> set (sellOrders b') \<and>
                 (if orderType (heap w r) = BUY
                  then sellOrders b' = sellOrders b \<and>
                       placedBy BuyOrderComparator (heap w') (next_ref w)
                         (remove1 r (buyOrders b)) (buyOrders b')
                  else buyOrders b' = buyOrders b \<and>
                       placedBy SellOrderComparator (heap w') (next_ref w)
                         (remove1 r (sellOrders b)) (sellOrders b'))))"
proof (intro conjI allI impI)
  show eq: "book_modifyOrder w b oid q p =
           (case orderLookup b oid of
              None \<Rightarrow> (False, w, b)
            | Some r \<Rightarrow>
                if modifiable (heap w r) q p then reinsertModified w b oid r q p
                else (False, w, b))"
    by (rule book_modifyOrder_wf_result [OF wf])
  show "fst (book_modifyOrder w b oid q p) =
           (\<exists>r. orderLookup b oid = Some r \<and> modifiable (heap w r) q p)"
    by (auto simp: eq reinsertModified_def Let_def split: option.splits)
  fix r assume a: "orderLookup b oid = Some r \<and> modifiable (heap w r) q p"
  then have lk: "orderLookup b oid = Some r" and md: "modifiable (heap w r) q p" by simp_all
  from md have "canCancel (heap w r)" by (simp add: modifiable_def canModify_canCancel)
  note res = live_resident [OF wf lk this]
  have rn: "r < next_ref w" using book_wf_lookup(2) [OF wf lk] .
  have nq: "next_ref w \<notin> set (buyOrders b) \<union> set (sellOrders b)"
    using book_wf_queue_allocated(1) [OF wf, of "next_ref w"] by auto
  define m where "m = next_ref w"
  define c where "c = (heap w r)\<lparr>quantity := q, price := p, status := ACCEPTED\<rparr>"
  define k where "k = insert_src w (insert_calls w)"
  obtain w' b' where run: "book_modifyOrder w b oid q p = (True, w', b')"
    using eq lk md by (simp add: reinsertModified_def Let_def)
  then have rm: "reinsertModified w b oid r q p = (True, w', b')"
    using eq lk md by simp
  from rm have w': "heap w' = (heap w)(m := c)" "clock_calls w' = clock_calls w"
    by (auto simp: reinsertModified_def Let_def m_def c_def)
  from rm have lk': "orderLookup b' = (orderLookup b)(oid \<mapsto> m)"
    by (auto simp: reinsertModified_def Let_def m_def insertResting_def)
  from rm have qs: "orderType (heap w r) = BUY \<Longrightarrow>
        buyOrders b' = multiset_insert BuyOrderComparator (heap w') k m (remove1 r (buyOrders b)) \<and>
        sellOrders b' = sellOrders b"
      "orderType (heap w r) \<noteq> BUY \<Longrightarrow>
        sellOrders b' = multiset_insert SellOrderComparator (heap w') k m (remove1 r (sellOrders b)) \<and>
        buyOrders b' = buyOrders b"
    by (auto simp: reinsertModified_def Let_def m_def c_def k_def insertResting_def removeResting_def)
  have cid: "orderId c = oid" "timestamp c = timestamp (heap w r)"
    using book_wf_lookup(1) [OF wf lk] by (simp_all add: c_def)
  have rm': "r \<noteq> m" using rn by (simp add: m_def)
  have d: "distinct (buyOrders b)" "distinct (sellOrders b)"
    using book_wf_types(3,4) [OF wf] .
  have rside: "orderType (heap w r) = BUY \<Longrightarrow> r \<notin> set (sellOrders b)"
      "orderType (heap w r) \<noteq> BUY \<Longrightarrow> r \<notin> set (buyOrders b)"
    using book_wf_types(1,2) [OF wf, of r] by auto
  have gone: "r \<notin> set (buyOrders b') \<union> set (sellOrders b')"
    using qs d rside rm' by (cases "orderType (heap w r) = BUY") auto
  have placed: "if orderType (heap w r) = BUY
      then sellOrders b' = sellOrders b \<and>
           placedBy BuyOrderComparator (heap w') m (remove1 r (buyOrders b)) (buyOrders b')
      else buyOrders b' = buyOrders b \<and>
           placedBy SellOrderComparator (heap w') m (remove1 r (sellOrders b)) (sellOrders b')"
    using qs by (simp add: multiset_insert_placedBy)
  from w' lk' res gone placed cid
  show "case book_modifyOrder w b oid q p of
          (ok, w', b') \<Rightarrow>
            heap w' =
              (heap w)(next_ref w :=
                 (heap w r)\<lparr>quantity := q, price := p, status := ACCEPTED\<rparr>) \<and>
            orderId (heap w' (next_ref w)) = oid \<and>
            timestamp (heap w' (next_ref w)) = timestamp (heap w r) \<and>
            clock_calls w' = clock_calls w \<and>
            orderLookup b' = (orderLookup b)(oid \<mapsto> next_ref w) \<and>
            r \<in> set (buyOrders b) \<union> set (sellOrders b) \<and>
            r \<notin> set (buyOrders b') \<union> set (sellOrders b') \<and>
            (if orderType (heap w r) = BUY
             then sellOrders b' = sellOrders b \<and>
                  placedBy BuyOrderComparator (heap w') (next_ref w)
                    (remove1 r (buyOrders b)) (buyOrders b')
             else buyOrders b' = buyOrders b \<and>
                  placedBy SellOrderComparator (heap w') (next_ref w)
                    (remove1 r (sellOrders b)) (sellOrders b'))"
    unfolding run m_def [symmetric] c_def [symmetric] by simp
qed

theorem modifyOrder_replaces_by_copy_witness:
  "book_wf tiedWorld tiedBook \<and> orderLookup tiedBook ''b'' = Some 1 \<and>
   modifiable (heap tiedWorld 1) 60 (Fin 105) \<and>
   book_modifyOrder tiedWorld tiedBook ''b'' 60 (Fin 105) =
     reinsertModified tiedWorld tiedBook ''b'' 1 60 (Fin 105) \<and>
   fst (book_modifyOrder tiedWorld tiedBook ''b'' 60 (Fin 105)) \<and>
   buyOrders tiedBook = [0, 1, 2] \<and>
   buyOrders (snd (snd (book_modifyOrder tiedWorld tiedBook ''b'' 60 (Fin 105)))) = [0, 3, 2] \<and>
   orderId (heap (fst (snd (book_modifyOrder tiedWorld tiedBook ''b'' 60 (Fin 105)))) 3) = ''b'' \<and>
   timestamp (heap (fst (snd (book_modifyOrder tiedWorld tiedBook ''b'' 60 (Fin 105)))) 3) = 2 \<and>
   placedBy BuyOrderComparator
     (heap (fst (snd (book_modifyOrder tiedWorld tiedBook ''b'' 60 (Fin 105))))) 3 [0, 2] [0, 3, 2]"
proof -
  have ev: "orderLookup tiedBook ''b'' = Some (Suc 0)"
      "modifiable (heap tiedWorld (Suc 0)) 60 (Fin 105)"
      "buyOrders tiedBook = [0, Suc 0, 2]"
      "buyOrders (snd (snd (book_modifyOrder tiedWorld tiedBook ''b'' 60 (Fin 105)))) = [0, 3, 2]"
      "next_ref tiedWorld = 3" "timestamp (heap tiedWorld (Suc 0)) = 2"
      "orderType (heap tiedWorld (Suc 0)) = BUY"
    by code_simp+
  note T = modifyOrder_replaces_by_copy [OF tied_book_wf, of "''b''" 60 "Fin 105",
      unfolded case_prod_beta]
  note U = T [THEN conjunct2, THEN conjunct2, rule_format, of "Suc 0", OF conjI [OF ev(1) ev(2)]]
  from U [THEN conjunct2, THEN conjunct1] ev(5)
  have "orderId (heap (fst (snd (book_modifyOrder tiedWorld tiedBook ''b'' 60 (Fin 105)))) 3) = ''b''"
    by simp
  moreover from U [THEN conjunct2, THEN conjunct2, THEN conjunct1] ev(5,6)
  have "timestamp (heap (fst (snd (book_modifyOrder tiedWorld tiedBook ''b'' 60 (Fin 105)))) 3) = 2"
    by simp
  moreover from U [THEN conjunct2, THEN conjunct2, THEN conjunct2, THEN conjunct2,
      THEN conjunct2, THEN conjunct2, THEN conjunct2] ev(3,4,5,7)
  have "placedBy BuyOrderComparator
       (heap (fst (snd (book_modifyOrder tiedWorld tiedBook ''b'' 60 (Fin 105))))) 3 [0, 2] [0, 3, 2]"
    by simp
  moreover from T [THEN conjunct1] ev
  have "book_modifyOrder tiedWorld tiedBook ''b'' 60 (Fin 105) =
     reinsertModified tiedWorld tiedBook ''b'' (Suc 0) 60 (Fin 105)" by simp
  moreover from T [THEN conjunct2, THEN conjunct1] ev
  have "fst (book_modifyOrder tiedWorld tiedBook ''b'' 60 (Fin 105))" by simp
  ultimately show ?thesis using tied_book_wf ev by simp
qed

section \<open>The engine\<close>

lemma foldl_notifyTradeExecuted:
  "callbacks (foldl notifyTradeExecuted e ts) =
     callbacks e @ concat (map (\<lambda>t. deliver (observers e) (OnTradeExecuted t)) ts)"
  "observers (foldl notifyTradeExecuted e ts) = observers e"
  "world (foldl notifyTradeExecuted e ts) = world e"
  "orderBooks (foldl notifyTradeExecuted e ts) = orderBooks e"
  "users (foldl notifyTradeExecuted e ts) = users e"
  "allOrders (foldl notifyTradeExecuted e ts) = allOrders e"
  by (induction ts arbitrary: e) (simp_all add: notifyTradeExecuted_def)

lemma notifyOrderStatusChanged_fields [simp]:
  "observers (notifyOrderStatusChanged e r) = observers e"
  "world (notifyOrderStatusChanged e r) = world e"
  "orderBooks (notifyOrderStatusChanged e r) = orderBooks e"
  "users (notifyOrderStatusChanged e r) = users e"
  "allOrders (notifyOrderStatusChanged e r) = allOrders e"
  by (simp_all add: notifyOrderStatusChanged_def)

lemma putOrderBook_fields [simp]:
  "callbacks (putOrderBook e smb b) = callbacks e"
  "observers (putOrderBook e smb b) = observers e"
  "world (putOrderBook e smb b) = world e"
  "users (putOrderBook e smb b) = users e"
  "allOrders (putOrderBook e smb b) = allOrders e"
  by (simp_all add: putOrderBook_def)

lemma getOrCreateOrderBook_fields [simp]:
  "callbacks (getOrCreateOrderBook e smb) = callbacks e"
  "observers (getOrCreateOrderBook e smb) = observers e"
  "world (getOrCreateOrderBook e smb) = world e"
  "users (getOrCreateOrderBook e smb) = users e"
  "allOrders (getOrCreateOrderBook e smb) = allOrders e"
  by (simp_all add: getOrCreateOrderBook_def split: option.splits)

lemma bookOf_orderBooks: "orderBooks e = orderBooks e' \<Longrightarrow> bookOf e smb = bookOf e' smb"
  by (simp add: bookOf_def)

lemma map_of_put:
  "map_of (map (\<lambda>(s, x). if s = smb then (s, b) else (s, x)) bs) k =
     (if k = smb then (case map_of bs k of None \<Rightarrow> None | Some _ \<Rightarrow> Some b) else map_of bs k)"
  by (induction bs) auto

lemma bookOf_putOrderBook:
  "bookOf (putOrderBook e smb b) k =
     (if k = smb \<and> map_of (orderBooks e) smb \<noteq> None then b else bookOf e k)"
  by (auto simp: bookOf_def putOrderBook_def map_of_put split: option.splits)

lemma putOrderBook_present:
  "(map_of (orderBooks (putOrderBook e smb b)) k = None) = (map_of (orderBooks e) k = None)"
  by (simp add: putOrderBook_def map_of_put split: option.splits)

lemma getOrCreateOrderBook_present:
  "map_of (orderBooks (getOrCreateOrderBook e smb)) smb \<noteq> None"
  by (auto simp: getOrCreateOrderBook_def map_add_def split: option.splits)

lemma addOrder_accepts:
  "addOrder w b (Some r) = (True, w1, b1) \<Longrightarrow> status (heap w1 r) = ACCEPTED"
  by (auto simp: addOrder_def Let_def setStatus_def insertChoice_def split: if_splits)

lemma matchAndPublish_run:
  assumes "matchOrders (world e) (bookOf e smb) = (trades, w, b)"
  shows "world (matchAndPublish e smb) = w"
    and "callbacks (matchAndPublish e smb) =
          callbacks e @ concat (map (\<lambda>t. deliver (observers e) (OnTradeExecuted t)) trades)"
    and "observers (matchAndPublish e smb) = observers e"
    and "users (matchAndPublish e smb) = users e"
    and "allOrders (matchAndPublish e smb) = allOrders e"
    and "orderBooks (matchAndPublish e smb) = orderBooks (putOrderBook e smb b)"
  using assms
  by (simp_all add: matchAndPublish_def foldl_notifyTradeExecuted putOrderBook_def)

text \<open>The run of \<open>placeOrder\<close> that accepts the order, step by step.\<close>

lemma placeOrder_accepted:
  assumes "placeOrder e uid ty smb qty prc = (Some r, e')"
  obtains oid w1 now w2 w3 e2 w4 b1 where
    "getUser e uid \<noteq> None" "\<not> prc < Fin 0"
    "generateUUID (world e) = (oid, w1)" "getCurrentTimestamp w1 = (now, w2)"
    "isValid (buildOrder oid uid ty smb qty prc now)"
    "r = next_ref w2"
    "w3 = w2\<lparr>heap := (heap w2)(r := buildOrder oid uid ty smb qty prc now), next_ref := r + 1\<rparr>"
    "e2 = (getOrCreateOrderBook (e\<lparr>world := w2\<rparr>) smb)
            \<lparr>world := w3, allOrders := (allOrders e)(oid \<mapsto> r)\<rparr>"
    "addOrder w3 (bookOf e2 smb) (Some r) = (True, w4, b1)"
    "e' = matchAndPublish (notifyOrderStatusChanged (putOrderBook (e2\<lparr>world := w4\<rparr>) smb b1) r) smb"
proof -
  obtain oid w1 where g: "generateUUID (world e) = (oid, w1)"
    by (cases "generateUUID (world e)") auto
  obtain now w2 where c: "getCurrentTimestamp w1 = (now, w2)"
    by (cases "getCurrentTimestamp w1") auto
  let ?ord = "buildOrder oid uid ty smb qty prc now"
  have oi: "orderId ?ord = oid"
    by (simp add: buildOrder_def newLimitOrder_def newMarketOrder_def)
  let ?r = "next_ref w2"
  let ?w3 = "w2\<lparr>heap := (heap w2)(?r := ?ord), next_ref := ?r + 1\<rparr>"
  let ?e2 = "(getOrCreateOrderBook (e\<lparr>world := w2\<rparr>) smb)
            \<lparr>world := ?w3, allOrders := (allOrders e)(oid \<mapsto> ?r)\<rparr>"
  obtain ok w4 b1 where a: "addOrder ?w3 (bookOf ?e2 smb) (Some ?r) = (ok, w4, b1)"
    by (cases "addOrder ?w3 (bookOf ?e2 smb) (Some ?r)") auto
  from assms g c a have "getUser e uid \<noteq> None" "\<not> prc < Fin 0" "isValid ?ord" "ok" "r = ?r"
    "e' = matchAndPublish (notifyOrderStatusChanged (putOrderBook (?e2\<lparr>world := w4\<rparr>) smb b1) ?r) smb"
    by (auto simp: placeOrder_def Let_def oi split: if_splits)
  with g c a show ?thesis
    by (intro that [of oid w1 now w2 ?w3 ?e2 w4 b1]) simp_all
qed

subsection \<open>Event publication\<close>

text \<open>
  C9, as stated, fails. After a bid of 100 at 105 rests, an ask of 40 at 100 is placed
  and accepted. The trade changes the status of both orders (the bid from ACCEPTED to
  PARTIALLY_FILLED, the ask from ACCEPTED to FILLED), but the callbacks of this call are
  exactly two: the status callback for the new order, made before the match, and the
  trade callback. No status callback follows the trade.
\<close>

theorem no_status_event_after_trade:
  "fst (placeOrder restingBid ''U2'' SELL ''X'' 40 (Fin 100)) = Some 1 \<and>
   status (heap (world restingBid) 0) = ACCEPTED \<and>
   status (heap (world askArrives) 0) = PARTIALLY_FILLED \<and>
   status (heap (world askArrives) 1) = FILLED \<and>
   drop (length (callbacks restingBid)) (callbacks askArrives) =
     [(7, OnOrderStatusChanged 1
            ((newLimitOrder (uuidStream 1) ''U2'' SELL ''X'' 40 (Fin 100) (clockStream 1))
               \<lparr>status := ACCEPTED\<rparr>)),
      (7, OnTradeExecuted
            \<lparr>tradeId = uuidStream 2, tradeType = BUY, buyerOrderId = uuidStream 0,
             sellerOrderId = uuidStream 1, tradeSymbol = ''X'', tradeQuantity = 40,
             tradePrice = Fin 100, tradeTimestamp = clockStream 2\<rparr>)]"
  by code_simp

text \<open>
  C9, amended. A \<open>placeOrder\<close> call that accepts an order publishes exactly: first one
  \<open>onOrderStatusChanged\<close> for the new order, which the observers see with status
  ACCEPTED, before the match runs; then one \<open>onTradeExecuted\<close> for each trade of the
  match, in the order of the match. Each is delivered to every registered observer in
  turn. No \<open>onOrderStatusChanged\<close> is published for the orders that the trades filled.
\<close>

theorem placeOrder_events:
  assumes "placeOrder e uid ty smb qty prc = (Some r, e')"
  shows "\<exists>w b trades.
           matchOrders w b = (trades, world e', bookOf e' smb) \<and>
           status (heap w r) = ACCEPTED \<and>
           callbacks e' =
             callbacks e @ deliver (observers e) (OnOrderStatusChanged r (heap w r)) @
             concat (map (\<lambda>t. deliver (observers e) (OnTradeExecuted t)) trades)"
proof -
  from assms obtain oid w1 w2 w3 e2 w4 b1 and now :: Timestamp where
    "generateUUID (world e) = (oid, w1)" "getCurrentTimestamp w1 = (now, w2)" and
    e2: "e2 = (getOrCreateOrderBook (e\<lparr>world := w2\<rparr>) smb)
            \<lparr>world := w3, allOrders := (allOrders e)(oid \<mapsto> r)\<rparr>"
    and a: "addOrder w3 (bookOf e2 smb) (Some r) = (True, w4, b1)"
    and e': "e' = matchAndPublish (notifyOrderStatusChanged (putOrderBook (e2\<lparr>world := w4\<rparr>) smb b1) r) smb"
    by (rule placeOrder_accepted)
  let ?e4 = "notifyOrderStatusChanged (putOrderBook (e2\<lparr>world := w4\<rparr>) smb b1) r"
  have present: "map_of (orderBooks e2) smb \<noteq> None"
    using getOrCreateOrderBook_present [of "e\<lparr>world := w2\<rparr>" smb] by (simp add: e2)
  have bk: "bookOf ?e4 smb = b1"
    using present
    by (simp add: bookOf_putOrderBook bookOf_orderBooks [of ?e4 "putOrderBook (e2\<lparr>world := w4\<rparr>) smb b1"])
  have w4: "world ?e4 = w4" by simp
  obtain trades w5 b2 where m: "matchOrders w4 b1 = (trades, w5, b2)"
    by (cases "matchOrders w4 b1") auto
  with bk w4 have m': "matchOrders (world ?e4) (bookOf ?e4 smb) = (trades, w5, b2)" by simp
  have present4: "map_of (orderBooks ?e4) smb \<noteq> None"
    using present
    by (simp add: putOrderBook_present notifyOrderStatusChanged_def)
  have "world e' = w5" using matchAndPublish_run(1) [OF m'] e' by simp
  moreover have "bookOf e' smb = b2"
    using matchAndPublish_run(6) [OF m'] present4
    by (simp add: e' bookOf_putOrderBook
        bookOf_orderBooks [of "matchAndPublish ?e4 smb" "putOrderBook ?e4 smb b2"])
  moreover have "callbacks e' = callbacks e @ deliver (observers e) (OnOrderStatusChanged r (heap w4 r)) @
             concat (map (\<lambda>t. deliver (observers e) (OnTradeExecuted t)) trades)"
    using matchAndPublish_run(2) [OF m'] by (simp add: e' e2 notifyOrderStatusChanged_def)
  moreover have "status (heap w4 r) = ACCEPTED"
    using a by (rule addOrder_accepts)
  ultimately show ?thesis using m by blast
qed

theorem placeOrder_events_witness:
  "fst (placeOrder restingBid ''U2'' SELL ''X'' 40 (Fin 100)) = Some 1 \<and>
   (\<exists>w b trades.
      matchOrders w b = (trades, world askArrives, bookOf askArrives ''X'') \<and>
      status (heap w 1) = ACCEPTED \<and>
      callbacks askArrives =
        callbacks restingBid @
        deliver (observers restingBid) (OnOrderStatusChanged 1 (heap w 1)) @
        concat (map (\<lambda>t. deliver (observers restingBid) (OnTradeExecuted t)) trades))"
proof -
  have r: "fst (placeOrder restingBid ''U2'' SELL ''X'' 40 (Fin 100)) = Some 1"
    by code_simp
  then have run: "placeOrder restingBid ''U2'' SELL ''X'' 40 (Fin 100) = (Some 1, askArrives)"
    by (simp add: askArrives_def prod_eq_iff)
  show ?thesis using r placeOrder_events [OF run] by simp
qed

section \<open>The comparators\<close>

text \<open>
  The price test of the comparators on doubles: it fails as soon as one price is NaN,
  and on two numbers it is the test on their values.
\<close>

lemma double_less_irrefl [simp]: "\<not> (x :: double) < x"
  by (cases x) simp_all





























end
